theory Spec2Isabelle
  imports Complex_Main "HOL-Library.Sublist"
begin

section \<open>Tensors, linear layers and networks\<close>

text \<open>
  A tensor carries its shape and its values in row-major order. Values are real numbers:
  the notebooks store 32-bit floats, and nothing below depends on rounding, only on which
  values are copied where.
\<close>

record tensor =
  shape :: "nat list"
  data :: "real list"

text \<open>
  The keys of a state dict, as the notebook prints them:
  \<^verbatim>\<open>hidden_layers.0.weight\<close>, \<^verbatim>\<open>hidden_layers.0.bias\<close>, ...,
  \<^verbatim>\<open>output.weight\<close>, \<^verbatim>\<open>output.bias\<close>.
  \<open>Hidden i Weight\<close> stands for \<^verbatim>\<open>hidden_layers.i.weight\<close>.
\<close>

datatype pkind = Weight | Bias

datatype pname = Hidden nat pkind | Output pkind

type_synonym state_dict_t = "(pname \<times> tensor) list"

text \<open>
  Parameters are initialised at random when a layer is constructed. The draw is an explicit
  argument: \<open>init k i\<close> is the value drawn for position \<open>i\<close> of the parameter named \<open>k\<close>.
\<close>

type_synonym initialiser = "pname \<Rightarrow> nat \<Rightarrow> real"

definition new_tensor :: "initialiser \<Rightarrow> pname \<Rightarrow> nat list \<Rightarrow> tensor" where
  "new_tensor init k shp = \<lparr>shape = shp, data = map (init k) [0..<prod_list shp]\<rparr>"

text \<open>
  \<^verbatim>\<open>nn.Linear(in_features, out_features)\<close>: a weight of shape
  \<open>[out_features, in_features]\<close> and a bias of shape \<open>[out_features]\<close>, the shapes the
  notebook's error message shows (\<^verbatim>\<open>torch.Size([512, 784])\<close> for
  \<^verbatim>\<open>Linear(in_features=784, out_features=512)\<close>).
\<close>

record linear_layer =
  in_features :: nat
  out_features :: nat
  weight :: tensor
  bias :: tensor

definition Linear :: "initialiser \<Rightarrow> (pkind \<Rightarrow> pname) \<Rightarrow> nat \<Rightarrow> nat \<Rightarrow> linear_layer" where
  "Linear init nm n_in n_out =
     \<lparr>in_features = n_in, out_features = n_out,
      weight = new_tensor init (nm Weight) [n_out, n_in],
      bias = new_tensor init (nm Bias) [n_out]\<rparr>"

text \<open>
  A network as the notebooks print it: the list of hidden layers, the output layer
  (the attribute \<^verbatim>\<open>output\<close>, here \<open>output_layer\<close>), the dropout module (its
  drop probability, \<open>None\<close> for a model without one) and the \<^verbatim>\<open>training\<close> flag
  of \<^verbatim>\<open>nn.Module\<close>, which is \<open>True\<close> on a new module.
\<close>

record network =
  hidden_layers :: "linear_layer list"
  output_layer :: linear_layer
  dropout :: "real option"
  training :: bool

datatype load_report = LoadReport (size_mismatch: "pname list") (missing_keys: "pname list")
  (unexpected_keys: "pname list")

datatype error =
    IndexError
  | KeyError
  | FileNotFoundError
  | LoadError load_report
  | ShapeError
  | CudaError
  | ZeroDivisionError

fun hidden_from :: "initialiser \<Rightarrow> nat \<Rightarrow> nat \<Rightarrow> nat list \<Rightarrow> linear_layer list" where
  "hidden_from init k n_in [] = []"
| "hidden_from init k n_in (h # hs) = Linear init (Hidden k) n_in h # hidden_from init (Suc k) h hs"

text \<open>
  Modelled from the spec: the class \<^verbatim>\<open>fc_model.Network\<close> is not among the sources.
  The spec has a model's parameters as an "ordered collection of per-layer weight matrices and
  bias vectors, addressed by layer name/index", created at construction and randomly
  initialised. The notebook prints what \<^verbatim>\<open>Network(784, 10, [512, 256, 128])\<close> builds:
  hidden layers \<^verbatim>\<open>Linear(784, 512)\<close>, \<^verbatim>\<open>Linear(512, 256)\<close>,
  \<^verbatim>\<open>Linear(256, 128)\<close>, the output layer \<^verbatim>\<open>Linear(128, 10)\<close> and
  \<^verbatim>\<open>Dropout(p=0.5)\<close>. Each hidden layer takes the width before it as input, the
  first one the input size, and the output layer takes the last width. The first hidden layer
  is always there, so an empty list of widths builds no model.
\<close>

definition Network :: "nat \<Rightarrow> nat \<Rightarrow> nat list \<Rightarrow> initialiser \<Rightarrow> error + network" where
  "Network input_size output_size hidden init =
     (case hidden of
        [] \<Rightarrow> Inl IndexError
      | _ \<Rightarrow> Inr \<lparr>hidden_layers = hidden_from init 0 input_size hidden,
                output_layer = Linear init Output (last hidden) output_size,
                dropout = Some (1 / 2),
                training = True\<rparr>)"

subsection \<open>The state dict\<close>

definition linear_params :: "(pkind \<Rightarrow> pname) \<Rightarrow> linear_layer \<Rightarrow> state_dict_t" where
  "linear_params nm l = [(nm Weight, weight l), (nm Bias, bias l)]"

fun hidden_params :: "nat \<Rightarrow> linear_layer list \<Rightarrow> state_dict_t" where
  "hidden_params k [] = []"
| "hidden_params k (l # ls) = linear_params (Hidden k) l @ hidden_params (Suc k) ls"

text \<open>
  \<^verbatim>\<open>model.state_dict()\<close>: every parameter under its key, hidden layers first, in the
  order the notebook prints the keys.
\<close>

definition state_dict :: "network \<Rightarrow> state_dict_t" where
  "state_dict m = hidden_params 0 (hidden_layers m) @ linear_params Output (output_layer m)"

text \<open>
  \<^verbatim>\<open>model.load_state_dict(state_dict)\<close> (strict, the default). For each parameter
  of the model: a stored tensor of another shape is a size mismatch, a stored tensor of the
  same shape is copied into the parameter, no stored tensor is a missing key. A stored key
  the model does not have is an unexpected key. The traceback in the notebook shows the end
  of the function: it raises when any message was collected and returns otherwise.
\<close>

definition copy_param :: "state_dict_t \<Rightarrow> pname \<Rightarrow> tensor \<Rightarrow> tensor" where
  "copy_param sd k p =
     (case map_of sd k of
        None \<Rightarrow> p
      | Some t \<Rightarrow> if shape t = shape p then p\<lparr>data := data t\<rparr> else p)"

definition load_linear :: "state_dict_t \<Rightarrow> (pkind \<Rightarrow> pname) \<Rightarrow> linear_layer \<Rightarrow> linear_layer" where
  "load_linear sd nm l =
     l\<lparr>weight := copy_param sd (nm Weight) (weight l), bias := copy_param sd (nm Bias) (bias l)\<rparr>"

fun load_hidden :: "state_dict_t \<Rightarrow> nat \<Rightarrow> linear_layer list \<Rightarrow> linear_layer list" where
  "load_hidden sd k [] = []"
| "load_hidden sd k (l # ls) = load_linear sd (Hidden k) l # load_hidden sd (Suc k) ls"

definition mismatched :: "state_dict_t \<Rightarrow> pname \<times> tensor \<Rightarrow> bool" where
  "mismatched sd kp =
     (case map_of sd (fst kp) of None \<Rightarrow> False | Some t \<Rightarrow> shape t \<noteq> shape (snd kp))"

definition absent :: "state_dict_t \<Rightarrow> pname \<times> tensor \<Rightarrow> bool" where
  "absent sd kp = (map_of sd (fst kp) = None)"

definition load_errors :: "network \<Rightarrow> state_dict_t \<Rightarrow> load_report" where
  "load_errors m sd =
     LoadReport
       (map fst (filter (mismatched sd) (state_dict m)))
       (map fst (filter (absent sd) (state_dict m)))
       (filter (\<lambda>k. k \<notin> set (map fst (state_dict m))) (map fst sd))"

definition load_state_dict :: "network \<Rightarrow> state_dict_t \<Rightarrow> error + network" where
  "load_state_dict m sd =
     (let report = load_errors m sd
      in if size_mismatch report = [] \<and> missing_keys report = [] \<and> unexpected_keys report = []
         then Inr (m\<lparr>hidden_layers := load_hidden sd 0 (hidden_layers m),
                     output_layer := load_linear sd Output (output_layer m)\<rparr>)
         else Inl (LoadError report))"

subsection \<open>Checkpoints\<close>

text \<open>
  The checkpoint dictionary of the notebook has four keys, \<^verbatim>\<open>'input_size'\<close>,
  \<^verbatim>\<open>'output_size'\<close>, \<^verbatim>\<open>'hidden_layers'\<close> and \<^verbatim>\<open>'state_dict'\<close>.
  The fields carry the prefix \<open>ck_\<close> since \<open>hidden_layers\<close> and \<open>state_dict\<close> already
  name the model's attribute and method.
\<close>

record checkpoint =
  ck_input_size :: nat
  ck_output_size :: nat
  ck_hidden_layers :: "nat list"
  ck_state_dict :: state_dict_t

text \<open>
  \<^verbatim>\<open>
  checkpoint = {'input_size': 784,
                'output_size': 10,
                'hidden_layers': [each.out_features for each in model.hidden_layers],
                'state_dict': model.state_dict()}
  \<close>
\<close>

definition make_checkpoint :: "network \<Rightarrow> checkpoint" where
  "make_checkpoint model =
     \<lparr>ck_input_size = 784,
      ck_output_size = 10,
      ck_hidden_layers = map out_features (hidden_layers model),
      ck_state_dict = state_dict model\<rparr>"

text \<open>
  The notebook saves two kinds of object to \<^verbatim>\<open>'checkpoint.pth'\<close>: first the bare state
  dict, later the checkpoint dictionary. A file system maps a path to what was saved there.
\<close>

datatype pickled = SavedStateDict state_dict_t | SavedCheckpoint checkpoint

type_synonym files = "string \<rightharpoonup> pickled"

definition torch_save :: "pickled \<Rightarrow> string \<Rightarrow> files \<Rightarrow> files" where
  "torch_save obj path fs = fs(path \<mapsto> obj)"

definition torch_load :: "files \<Rightarrow> string \<Rightarrow> error + pickled" where
  "torch_load fs path = (case fs path of None \<Rightarrow> Inl FileNotFoundError | Some obj \<Rightarrow> Inr obj)"

text \<open>
  \<^verbatim>\<open>
  def load_checkpoint(filepath):
      checkpoint = torch.load(filepath)
      model = fc_model.Network(checkpoint['input_size'],
                               checkpoint['output_size'],
                               checkpoint['hidden_layers'])
      model.load_state_dict(checkpoint['state_dict'])
      return model
  \<close>
  The file system and the random draw of \<^verbatim>\<open>Network\<close> are arguments. A file that holds
  a bare state dict has no key \<^verbatim>\<open>'input_size'\<close>.
\<close>

definition load_checkpoint :: "files \<Rightarrow> initialiser \<Rightarrow> string \<Rightarrow> error + network" where
  "load_checkpoint fs init filepath =
     (case torch_load fs filepath of
        Inl e \<Rightarrow> Inl e
      | Inr (SavedStateDict sd) \<Rightarrow> Inl KeyError
      | Inr (SavedCheckpoint checkpoint) \<Rightarrow>
          (case Network (ck_input_size checkpoint) (ck_output_size checkpoint)
                  (ck_hidden_layers checkpoint) init of
             Inl e \<Rightarrow> Inl e
           | Inr model \<Rightarrow> load_state_dict model (ck_state_dict checkpoint)))"


text \<open>
  The cell that loads a state dict into a model built anew (the notebook builds
  \<^verbatim>\<open>Network(784, 10, [400, 200, 100])\<close>; the sizes are arguments here):
  \<^verbatim>\<open>
  model = fc_model.Network(784, 10, [400, 200, 100])
  model.load_state_dict(state_dict)
  \<close>
\<close>

definition rebuild_and_load ::
  "nat \<Rightarrow> nat \<Rightarrow> nat list \<Rightarrow> initialiser \<Rightarrow> state_dict_t \<Rightarrow> error + network" where
  "rebuild_and_load input_size output_size hidden init sd =
     (case Network input_size output_size hidden init of
        Inl e \<Rightarrow> Inl e
      | Inr model \<Rightarrow> load_state_dict model sd)"

text \<open>Looking a parameter up in the model by its key, and the shape the sizes give it.\<close>

fun select :: "pkind \<Rightarrow> linear_layer \<Rightarrow> tensor" where
  "select Weight l = weight l"
| "select Bias l = bias l"

fun get_param :: "network \<Rightarrow> pname \<Rightarrow> tensor option" where
  "get_param m (Hidden j f) =
     (if j < length (hidden_layers m) then Some (select f (hidden_layers m ! j)) else None)"
| "get_param m (Output f) = Some (select f (output_layer m))"

fun param_shape :: "nat \<Rightarrow> nat \<Rightarrow> nat list \<Rightarrow> pname \<Rightarrow> nat list option" where
  "param_shape a b H (Hidden j Weight) = (if j < length H then Some [H ! j, (a # H) ! j] else None)"
| "param_shape a b H (Hidden j Bias) = (if j < length H then Some [H ! j] else None)"
| "param_shape a b H (Output Weight) = Some [b, last H]"
| "param_shape a b H (Output Bias) = Some [b]"

section \<open>The forward pass\<close>

definition relu :: "real \<Rightarrow> real" where
  "relu v = max 0 v"

definition log_softmax :: "real list \<Rightarrow> real list" where
  "log_softmax z = map (\<lambda>v. v - ln (\<Sum>u\<leftarrow>z. exp u)) z"

text \<open>
  A linear layer on one row of the batch: \<open>y\<^sub>j = (\<Sum>i. W\<^sub>j\<^sub>i x\<^sub>i) + b\<^sub>j\<close>. A row of another
  length than \<open>in_features\<close> is the library's size-mismatch error.
\<close>

definition linear_forward :: "linear_layer \<Rightarrow> real list \<Rightarrow> error + real list" where
  "linear_forward l x =
     (if length x \<noteq> in_features l then Inl ShapeError
      else Inr (map (\<lambda>j. (\<Sum>i\<leftarrow>[0..<in_features l].
                              data (weight l) ! (j * in_features l + i) * x ! i)
                          + data (bias l) ! j)
                  [0..<out_features l]))"

text \<open>
  Dropout. In training mode each unit is zeroed with probability \<open>p\<close> and the kept ones are
  scaled by \<open>1 / (1 - p)\<close>; \<open>keep i\<close> is the draw for unit \<open>i\<close>. In evaluation mode, and in
  a model without a dropout module, the input passes unchanged.
\<close>

definition dropout_forward :: "real option \<Rightarrow> bool \<Rightarrow> (nat \<Rightarrow> bool) \<Rightarrow> real list \<Rightarrow> real list" where
  "dropout_forward p train keep x =
     (case p of
        None \<Rightarrow> x
      | Some q \<Rightarrow>
          if train then map (\<lambda>i. if keep i then x ! i / (1 - q) else 0) [0..<length x] else x)"

text \<open>
  The hidden layers of \<^verbatim>\<open>Classifier.forward\<close>, one after the other:
  \<^verbatim>\<open>x = self.dropout(F.relu(self.fc1(x)))\<close>. \<open>keep k\<close> is the dropout draw of layer
  \<open>k\<close>.
\<close>

fun forward_hidden ::
  "real option \<Rightarrow> bool \<Rightarrow> (nat \<Rightarrow> nat \<Rightarrow> bool) \<Rightarrow> nat \<Rightarrow> linear_layer list \<Rightarrow> real list
     \<Rightarrow> error + real list" where
  "forward_hidden p train keep k [] x = Inr x"
| "forward_hidden p train keep k (l # ls) x =
     (case linear_forward l x of
        Inl e \<Rightarrow> Inl e
      | Inr y \<Rightarrow> forward_hidden p train keep (Suc k) ls
                  (dropout_forward p train (keep k) (map relu y)))"

text \<open>
  \<^verbatim>\<open>
  def forward(self, x):
      x = x.view(x.shape[0], -1)
      x = self.dropout(F.relu(self.fc1(x)))
      x = self.dropout(F.relu(self.fc2(x)))
      x = self.dropout(F.relu(self.fc3(x)))
      x = F.log_softmax(self.fc4(x), dim=1)
      return x
  \<close>
  on one row, already flattened.
\<close>

text \<open>
  Modelled from the spec: the forward pass of \<^verbatim>\<open>fc_model.Network\<close> is not among the
  sources. It is taken to be this same function on the layers the notebook prints for a
  \<^verbatim>\<open>Network\<close>: its hidden layers with dropout after each, then its output layer.
\<close>

definition forward :: "network \<Rightarrow> (nat \<Rightarrow> nat \<Rightarrow> bool) \<Rightarrow> real list \<Rightarrow> error + real list" where
  "forward net keep x =
     (case forward_hidden (dropout net) (training net) keep 0 (hidden_layers net) x of
        Inl e \<Rightarrow> Inl e
      | Inr h \<Rightarrow>
          (case linear_forward (output_layer net) h of
             Inl e \<Rightarrow> Inl e
           | Inr z \<Rightarrow> Inr (log_softmax z)))"

text \<open>\<^verbatim>\<open>model(images)\<close> on a batch: \<open>keep r\<close> is the dropout draw for row \<open>r\<close>.\<close>

fun forward_rows ::
  "network \<Rightarrow> (nat \<Rightarrow> nat \<Rightarrow> nat \<Rightarrow> bool) \<Rightarrow> nat \<Rightarrow> real list list \<Rightarrow> error + real list list" where
  "forward_rows net keep r [] = Inr []"
| "forward_rows net keep r (x # xs) =
     (case forward net (keep r) x of
        Inl e \<Rightarrow> Inl e
      | Inr y \<Rightarrow>
          (case forward_rows net keep (Suc r) xs of
             Inl e \<Rightarrow> Inl e
           | Inr ys \<Rightarrow> Inr (y # ys)))"

text \<open>
  \<^verbatim>\<open>model.eval()\<close> and inference as the notebook does it:
  \<^verbatim>\<open>
  model.eval()
  with torch.no_grad():
      output = model.forward(img)
  \<close>
\<close>

definition eval_mode :: "network \<Rightarrow> network" where
  "eval_mode net = net\<lparr>training := False\<rparr>"

definition predict :: "network \<Rightarrow> real list \<Rightarrow> error + real list" where
  "predict net img = forward (eval_mode net) (\<lambda>k i. True) img"

text \<open>
  The models of Part 5 and Part 4. \<^verbatim>\<open>Classifier\<close> has \<^verbatim>\<open>fc1 = Linear(784, 256)\<close>,
  \<^verbatim>\<open>fc2 = Linear(256, 128)\<close>, \<^verbatim>\<open>fc3 = Linear(128, 64)\<close> and
  \<^verbatim>\<open>fc4 = Linear(64, 10)\<close>; \<open>fc1\<close> to \<open>fc3\<close> are the hidden layers and \<open>fc4\<close> the output
  layer. The second definition of the class adds \<^verbatim>\<open>Dropout(p=0.2)\<close>.
\<close>

definition Classifier :: "initialiser \<Rightarrow> network" where
  "Classifier init =
     \<lparr>hidden_layers = [Linear init (Hidden 0) 784 256, Linear init (Hidden 1) 256 128,
                       Linear init (Hidden 2) 128 64],
      output_layer = Linear init Output 64 10,
      dropout = None,
      training = True\<rparr>"

definition Classifier_dropout :: "initialiser \<Rightarrow> network" where
  "Classifier_dropout init = (Classifier init)\<lparr>dropout := Some (2 / 10)\<rparr>"

text \<open>
  \<^verbatim>\<open>
  model = nn.Sequential(nn.Linear(784, 128), nn.ReLU(),
                        nn.Linear(128, 64), nn.ReLU(),
                        nn.Linear(64, 10), nn.LogSoftmax(dim=1))
  \<close>
\<close>

definition Sequential_model :: "initialiser \<Rightarrow> network" where
  "Sequential_model init =
     \<lparr>hidden_layers = [Linear init (Hidden 0) 784 128, Linear init (Hidden 1) 128 64],
      output_layer = Linear init Output 64 10,
      dropout = None,
      training = True\<rparr>"


section \<open>Training and validation\<close>

text \<open>
  A batch is the images, one flattened row each, and their labels. The loaders shuffle
  (\<^verbatim>\<open>shuffle=True\<close>): a loader gives, for the \<open>e\<close>-th pass over it, the batches of
  that pass.
\<close>

type_synonym batch = "real list list \<times> nat list"

type_synonym loader = "nat \<Rightarrow> batch list"

datatype device = Cpu | Cuda0

text \<open>
  The calls the cells make on the model, the criterion, the loss and the optimizer, in
  the order they are made: \<^verbatim>\<open>model.train()\<close>, \<^verbatim>\<open>model.eval()\<close>,
  \<^verbatim>\<open>optimizer.zero_grad()\<close>, \<^verbatim>\<open>model(images)\<close>, \<^verbatim>\<open>criterion(...)\<close>,
  \<^verbatim>\<open>loss.backward()\<close> and \<^verbatim>\<open>optimizer.step()\<close>.
\<close>

datatype call = SetTrain | SetEval | ZeroGrad | Forward | Criterion | Backward | OptStep

text \<open>
  What the cells take from the library and the machine: whether CUDA is there, the dropout
  draws (of the \<open>n\<close>-th call, row, layer, unit), the gradient that automatic differentiation
  computes for a forward pass and its loss, and the optimizer's update rule (SGD in Part 4,
  Adam in Part 5), which works on the model's parameters with the gradients stored for them.
\<close>

record 'o torch =
  cuda_available :: bool
  dropout_noise :: "nat \<Rightarrow> nat \<Rightarrow> nat \<Rightarrow> nat \<Rightarrow> bool"
  autograd :: "network \<Rightarrow> (nat \<Rightarrow> nat \<Rightarrow> nat \<Rightarrow> bool) \<Rightarrow> real list list \<Rightarrow> nat list \<Rightarrow> state_dict_t"
  opt_update :: "'o \<Rightarrow> network \<Rightarrow> state_dict_t option \<Rightarrow> 'o \<times> network"

text \<open>
  The variables of a training cell: the model and the device it was moved to, the gradients
  stored with its parameters (\<open>None\<close> before the first backward pass, as the notebook prints),
  the optimizer's own state, the calls made so far, the two lists of losses and the printed
  lines (the numbers of each line).
\<close>

record 'o session =
  model :: network
  model_on :: device
  grads :: "state_dict_t option"
  optimizer :: 'o
  calls :: "call list"
  train_losses :: "real list"
  test_losses :: "real list"
  printed :: "real list list"

text \<open>
  \<^verbatim>\<open>device = torch.device("cuda:0" if torch.cuda.is_available() else "cpu")\<close>
\<close>

definition select_device :: "'o torch \<Rightarrow> device" where
  "select_device T = (if cuda_available T then Cuda0 else Cpu)"

definition model_train :: "'o session \<Rightarrow> 'o session" where
  "model_train s = s\<lparr>model := (model s)\<lparr>training := True\<rparr>, calls := calls s @ [SetTrain]\<rparr>"

definition model_eval :: "'o session \<Rightarrow> 'o session" where
  "model_eval s = s\<lparr>model := eval_mode (model s), calls := calls s @ [SetEval]\<rparr>"

text \<open>\<^verbatim>\<open>optimizer.zero_grad()\<close> zeroes the gradients that are stored.\<close>

definition zero_grad :: "'o session \<Rightarrow> 'o session" where
  "zero_grad s =
     s\<lparr>grads := map_option (map (\<lambda>kt. (fst kt, (snd kt)\<lparr>data := map (\<lambda>v. 0) (data (snd kt))\<rparr>)))
                  (grads s),
       calls := calls s @ [ZeroGrad]\<rparr>"

text \<open>
  \<^verbatim>\<open>model(images)\<close>. The dropout draw is the one of this call. An error leaves the
  session as it was when the error was raised.
\<close>

definition call_model ::
  "'o torch \<Rightarrow> 'o session \<Rightarrow> real list list \<Rightarrow> (error \<times> 'o session) + (real list list \<times> 'o session)" where
  "call_model T s images =
     (case forward_rows (model s) (dropout_noise T (length (calls s))) 0 images of
        Inl e \<Rightarrow> Inl (e, s)
      | Inr out \<Rightarrow> Inr (out, s\<lparr>calls := calls s @ [Forward]\<rparr>))"

text \<open>
  \<^verbatim>\<open>nn.NLLLoss()\<close>: the mean over the batch of minus the log-probability of the label.
  A row without an entry for its label is the library's out-of-bounds error, a batch of labels
  of another length than the output its size error. The loaders give no empty batch.
\<close>

definition nll_loss :: "real list list \<Rightarrow> nat list \<Rightarrow> error + real" where
  "nll_loss log_ps labels =
     (if length labels \<noteq> length log_ps then Inl ShapeError
      else if \<not> list_all2 (\<lambda>row l. l < length row) log_ps labels then Inl IndexError
      else Inr ((\<Sum>rl\<leftarrow>zip log_ps labels. - (fst rl ! snd rl)) / real (length labels)))"

definition criterion ::
  "'o session \<Rightarrow> real list list \<Rightarrow> nat list \<Rightarrow> (error \<times> 'o session) + (real \<times> 'o session)" where
  "criterion s log_ps labels =
     (case nll_loss log_ps labels of
        Inl e \<Rightarrow> Inl (e, s)
      | Inr loss \<Rightarrow> Inr (loss, s\<lparr>calls := calls s @ [Criterion]\<rparr>))"

text \<open>
  \<^verbatim>\<open>loss.backward()\<close> adds the gradient of the loss to the stored gradients ("the
  gradients are accumulated", as the notebook says). \<open>n\<close> tells which forward call the loss
  came from.
\<close>

definition accumulate :: "state_dict_t option \<Rightarrow> state_dict_t \<Rightarrow> state_dict_t" where
  "accumulate old new =
     (case old of
        None \<Rightarrow> new
      | Some g \<Rightarrow> map (\<lambda>kt. (fst (fst kt),
                              (snd (fst kt))\<lparr>data := map (\<lambda>vd. fst vd + snd vd)
                                                       (zip (data (snd (fst kt))) (data (snd (snd kt))))\<rparr>))
                    (zip g new))"

definition backward ::
  "'o torch \<Rightarrow> nat \<Rightarrow> real list list \<Rightarrow> nat list \<Rightarrow> 'o session \<Rightarrow> 'o session" where
  "backward T n images labels s =
     s\<lparr>grads := Some (accumulate (grads s)
                        (autograd T (model s) (dropout_noise T n) images labels)),
       calls := calls s @ [Backward]\<rparr>"

definition optimizer_step :: "'o torch \<Rightarrow> 'o session \<Rightarrow> 'o session" where
  "optimizer_step T s =
     s\<lparr>model := snd (opt_update T (optimizer s) (model s) (grads s)),
       optimizer := fst (opt_update T (optimizer s) (model s) (grads s)),
       calls := calls s @ [OptStep]\<rparr>"

text \<open>
  The body both training loops share:
  \<^verbatim>\<open>
  optimizer.zero_grad()
  log_ps = model(images)
  loss = criterion(log_ps, labels)
  loss.backward()
  optimizer.step()
  \<close>
  It returns \<^verbatim>\<open>loss.item()\<close> and the session.
\<close>

definition learn_batch ::
  "'o torch \<Rightarrow> 'o session \<Rightarrow> batch \<Rightarrow> (error \<times> 'o session) + (real \<times> 'o session)" where
  "learn_batch T s b =
     (let s1 = zero_grad s; n = length (calls s1)
      in case call_model T s1 (fst b) of
           Inl e \<Rightarrow> Inl e
         | Inr (log_ps, s2) \<Rightarrow>
             (case criterion s2 log_ps (snd b) of
                Inl e \<Rightarrow> Inl e
              | Inr (loss, s3) \<Rightarrow>
                  Inr (loss, optimizer_step T (backward T n (fst b) (snd b) s3))))"

text \<open>A \<^verbatim>\<open>for\<close> loop whose body may raise: the first error ends it.\<close>

fun for_each :: "('s \<Rightarrow> 'b \<Rightarrow> 'e + 's) \<Rightarrow> 's \<Rightarrow> 'b list \<Rightarrow> 'e + 's" where
  "for_each body s [] = Inr s"
| "for_each body s (b # bs) =
     (case body s b of Inl e \<Rightarrow> Inl e | Inr s' \<Rightarrow> for_each body s' bs)"

subsection \<open>The training loop of Part 4\<close>

text \<open>
  \<^verbatim>\<open>
  epochs = 5
  for e in range(epochs):
      running_loss = 0
      for images, labels in trainloader:
          images = images.view(images.shape[0], -1)
          optimizer.zero_grad()
          output = model(images)
          loss = criterion(output,labels)
          loss.backward()
          optimizer.step()
          running_loss += loss.item()
      else:
          print(f"Training loss: {running_loss/len(trainloader)}")
  \<close>
  The loop variables are the session and \<^verbatim>\<open>running_loss\<close>. Dividing by the length
  of an empty loader raises.
\<close>

definition part4_batch ::
  "'o torch \<Rightarrow> 'o session \<times> real \<Rightarrow> batch \<Rightarrow> (error \<times> 'o session) + ('o session \<times> real)" where
  "part4_batch T sr b =
     (case learn_batch T (fst sr) b of
        Inl e \<Rightarrow> Inl e
      | Inr (loss, s') \<Rightarrow> Inr (s', snd sr + loss))"

definition part4_epoch ::
  "'o torch \<Rightarrow> loader \<Rightarrow> 'o session \<Rightarrow> nat \<Rightarrow> (error \<times> 'o session) + 'o session" where
  "part4_epoch T trainloader s e =
     (case for_each (part4_batch T) (s, 0) (trainloader e) of
        Inl err \<Rightarrow> Inl err
      | Inr (s1, running_loss) \<Rightarrow>
          if trainloader e = [] then Inl (ZeroDivisionError, s1)
          else Inr (s1\<lparr>printed := printed s1 @ [[running_loss / real (length (trainloader e))]]\<rparr>))"

definition new_session :: "network \<Rightarrow> device \<Rightarrow> 'o \<Rightarrow> 'o session" where
  "new_session model0 dev opt0 =
     \<lparr>model = model0, model_on = dev, grads = None, optimizer = opt0, calls = [],
      train_losses = [], test_losses = [], printed = []\<rparr>"

definition part4_loop ::
  "'o torch \<Rightarrow> network \<Rightarrow> 'o \<Rightarrow> nat \<Rightarrow> loader \<Rightarrow> (error \<times> 'o session) + 'o session" where
  "part4_loop T model0 opt0 epochs trainloader =
     for_each (part4_epoch T trainloader) (new_session model0 Cpu opt0) [0..<epochs]"

definition part4_cell ::
  "'o torch \<Rightarrow> initialiser \<Rightarrow> 'o \<Rightarrow> loader \<Rightarrow> (error \<times> 'o session) + 'o session" where
  "part4_cell T init opt0 trainloader = part4_loop T (Sequential_model init) opt0 5 trainloader"

subsection \<open>The training loop of Part 5, with its validation pass\<close>

text \<open>
  \<^verbatim>\<open>equals = output.argmax(-1) == labels[None]\<close> and
  \<^verbatim>\<open>accuracy += torch.mean(equals.type(torch.FloatTensor))\<close>.
  \<open>argmax\<close> is the position of the largest entry of a row (the first one among equals);
  a row of the output has an entry for every class, so it is not empty. The output and the
  labels have the same length here: the criterion has been called on them just before.
\<close>

fun argmax_from :: "nat \<Rightarrow> real \<Rightarrow> nat \<Rightarrow> real list \<Rightarrow> nat" where
  "argmax_from best v i [] = best"
| "argmax_from best v i (x # xs) =
     (if v < x then argmax_from i x (Suc i) xs else argmax_from best v (Suc i) xs)"

definition argmax :: "real list \<Rightarrow> nat" where
  "argmax row = (case row of [] \<Rightarrow> 0 | x # xs \<Rightarrow> argmax_from 0 x 1 xs)"

definition equals :: "real list list \<Rightarrow> nat list \<Rightarrow> bool list" where
  "equals out labels = map (\<lambda>rl. argmax (fst rl) = snd rl) (zip out labels)"

definition mean_float :: "bool list \<Rightarrow> real" where
  "mean_float bs = (\<Sum>b\<leftarrow>bs. if b then 1 else 0) / real (length bs)"

definition accuracy_step :: "real \<Rightarrow> real list list \<Rightarrow> nat list \<Rightarrow> real" where
  "accuracy_step accuracy out labels = accuracy + mean_float (equals out labels)"

text \<open>
  \<^verbatim>\<open>
  for images, labels in trainloader:
      images,labels = images.cuda(), labels.cuda()
      optimizer.zero_grad()
      log_ps = model(images)
      loss = criterion(log_ps, labels)
      loss.backward()
      optimizer.step()
      running_loss += loss.item()
  \<close>
  \<^verbatim>\<open>.cuda()\<close> raises on a machine without CUDA.
\<close>

definition train_batch ::
  "'o torch \<Rightarrow> 'o session \<times> real \<Rightarrow> batch \<Rightarrow> (error \<times> 'o session) + ('o session \<times> real)" where
  "train_batch T sr b =
     (if \<not> cuda_available T then Inl (CudaError, fst sr)
      else case learn_batch T (fst sr) b of
             Inl e \<Rightarrow> Inl e
           | Inr (loss, s') \<Rightarrow> Inr (s', snd sr + loss))"

text \<open>
  \<^verbatim>\<open>
  for images,labels in testloader:
      images, labels = images.cuda(),labels.cuda()
      output = model(images)
      test_loss += criterion(output,labels)
      equals = output.argmax(-1) == labels[None]
      accuracy += torch.mean(equals.type(torch.FloatTensor))
  \<close>
  The loop variables are the session, \<^verbatim>\<open>test_loss\<close> and \<^verbatim>\<open>accuracy\<close>.
\<close>

definition validate_batch ::
  "'o torch \<Rightarrow> 'o session \<times> real \<times> real \<Rightarrow> batch
     \<Rightarrow> (error \<times> 'o session) + ('o session \<times> real \<times> real)" where
  "validate_batch T sta b =
     (if \<not> cuda_available T then Inl (CudaError, fst sta)
      else case call_model T (fst sta) (fst b) of
             Inl e \<Rightarrow> Inl e
           | Inr (out, s1) \<Rightarrow>
               (case criterion s1 out (snd b) of
                  Inl e \<Rightarrow> Inl e
                | Inr (loss, s2) \<Rightarrow>
                    Inr (s2, fst (snd sta) + loss, accuracy_step (snd (snd sta)) out (snd b))))"

text \<open>
  The format \<^verbatim>\<open>:.3f\<close> prints the number with three digits after the point that is
  nearest to the value, and the one with an even last digit when two are equally near.
\<close>

definition format_3f :: "real \<Rightarrow> real" where
  "format_3f x =
     (let n = \<lfloor>x * 1000\<rfloor>; r = x * 1000 - of_int n
      in (if r < 1 / 2 \<or> (r = 1 / 2 \<and> even n) then of_int n else of_int n + 1) / 1000)"

text \<open>
  One epoch:
  \<^verbatim>\<open>
  running_loss = 0
  model.train()
  for images, labels in trainloader: ...
  else:
      test_loss = 0.
      accuracy = 0.
      with torch.no_grad():
          model.eval()
          for images,labels in testloader: ...
      train_losses.append(running_loss / len(trainloader))
      test_losses.append(test_loss / len(testloader))
      print(f'Epoch: {e+1}/{epochs}',
            f'Training Loss: {running_loss / len(trainloader):.3f}',
            f'Test Loss: {test_loss / len(testloader):.3f}',
            f'Test Accuracy: {accuracy*100 / len(testloader):.3f}',)
  \<close>
\<close>

definition part5_epoch ::
  "'o torch \<Rightarrow> nat \<Rightarrow> loader \<Rightarrow> loader \<Rightarrow> 'o session \<Rightarrow> nat \<Rightarrow> (error \<times> 'o session) + 'o session" where
  "part5_epoch T epochs trainloader testloader s e =
     (case for_each (train_batch T) (model_train s, 0) (trainloader e) of
        Inl err \<Rightarrow> Inl err
      | Inr (s1, running_loss) \<Rightarrow>
          (case for_each (validate_batch T) (model_eval s1, 0, 0) (testloader e) of
             Inl err \<Rightarrow> Inl err
           | Inr (s2, test_loss, accuracy) \<Rightarrow>
               if trainloader e = [] then Inl (ZeroDivisionError, s2)
               else
                 let s3 = s2\<lparr>train_losses :=
                               train_losses s2 @ [running_loss / real (length (trainloader e))]\<rparr>
                 in if testloader e = [] then Inl (ZeroDivisionError, s3)
                    else Inr (s3\<lparr>test_losses :=
                                    test_losses s3 @ [test_loss / real (length (testloader e))],
                                  printed := printed s3 @
                                    [[real (e + 1), real epochs,
                                      format_3f (running_loss / real (length (trainloader e))),
                                      format_3f (test_loss / real (length (testloader e))),
                                      format_3f (accuracy * 100 / real (length (testloader e)))]]\<rparr>)))"

text \<open>
  \<^verbatim>\<open>
  model = Classifier()
  model.to(device)
  criterion = nn.NLLLoss()
  optimizer = optim.Adam(model.parameters(), lr=0.003)
  epochs = 30
  train_losses, test_losses = [], []
  for e in range(epochs): ...
  \<close>
  \<open>part5_loop\<close> is the cell for any model and any number of epochs, \<open>part5_cell\<close> the cell as
  the notebook has it.
\<close>

definition part5_loop ::
  "'o torch \<Rightarrow> network \<Rightarrow> 'o \<Rightarrow> nat \<Rightarrow> loader \<Rightarrow> loader \<Rightarrow> (error \<times> 'o session) + 'o session" where
  "part5_loop T model0 opt0 epochs trainloader testloader =
     for_each (part5_epoch T epochs trainloader testloader)
       (new_session model0 (select_device T) opt0) [0..<epochs]"

definition part5_cell ::
  "'o torch \<Rightarrow> initialiser \<Rightarrow> 'o \<Rightarrow> loader \<Rightarrow> loader \<Rightarrow> (error \<times> 'o session) + 'o session" where
  "part5_cell T init opt0 trainloader testloader =
     part5_loop T (Classifier init) opt0 30 trainloader testloader"

text \<open>
  The test accuracy a cell computes, \<^verbatim>\<open>accuracy*100 / len(testloader)\<close>, from the
  outputs of the model on the test batches and their labels (the cell prints it with
  \<^verbatim>\<open>:.3f\<close>), next to the share of test images classified correctly, in percent.
\<close>

definition test_accuracy :: "(real list list \<times> nat list) list \<Rightarrow> real" where
  "test_accuracy outs =
     fold (\<lambda>ol accuracy. accuracy_step accuracy (fst ol) (snd ol)) outs 0 * 100
       / real (length outs)"

definition correct :: "real list list \<times> nat list \<Rightarrow> nat" where
  "correct ol = length (filter (\<lambda>b. b) (equals (fst ol) (snd ol)))"

definition batch_size :: "real list list \<times> nat list \<Rightarrow> nat" where
  "batch_size ol = length (equals (fst ol) (snd ol))"

definition share_correct :: "(real list list \<times> nat list) list \<Rightarrow> real" where
  "share_correct outs =
     real (\<Sum>ol\<leftarrow>outs. correct ol) * 100 / real (\<Sum>ol\<leftarrow>outs. batch_size ol)"

section \<open>Auxiliary notions for the properties\<close>

text \<open>What \<open>load_state_dict\<close> leaves in the model when it does not raise.\<close>

definition loaded :: "network \<Rightarrow> state_dict_t \<Rightarrow> network" where
  "loaded m sd = m\<lparr>hidden_layers := load_hidden sd 0 (hidden_layers m),
                   output_layer := load_linear sd Output (output_layer m)\<rparr>"

text \<open>The calls of one epoch of Part 5, for the batches of its two passes, and of Part 4.\<close>

definition part5_epoch_calls :: "loader \<Rightarrow> loader \<Rightarrow> nat \<Rightarrow> call list" where
  "part5_epoch_calls trainloader testloader e =
     SetTrain # concat (map (\<lambda>b. [ZeroGrad, Forward, Criterion, Backward, OptStep]) (trainloader e))
       @ SetEval # concat (map (\<lambda>b. [Forward, Criterion]) (testloader e))"

definition part4_epoch_calls :: "loader \<Rightarrow> nat \<Rightarrow> call list" where
  "part4_epoch_calls trainloader e =
     concat (map (\<lambda>b. [ZeroGrad, Forward, Criterion, Backward, OptStep]) (trainloader e))"

text \<open>
  The five steps of the loop body on every batch of a list in turn, from a session: a
  training loop without its running loss and its printing.
\<close>

definition learn_batches ::
  "'o torch \<Rightarrow> 'o session \<Rightarrow> batch list \<Rightarrow> (error \<times> 'o session) + 'o session" where
  "learn_batches T =
     for_each (\<lambda>s b. case learn_batch T s b of Inl e \<Rightarrow> Inl e | Inr ls \<Rightarrow> Inr (snd ls))"

text \<open>
  What an epoch of Part 5 does to the model, the stored gradients and the optimizer: training
  mode, the five steps on every training batch, evaluation mode. Of the validation pass only
  the calls are left.
\<close>

definition part5_epoch_training ::
  "'o torch \<Rightarrow> loader \<Rightarrow> loader \<Rightarrow> 'o session \<Rightarrow> nat \<Rightarrow> (error \<times> 'o session) + 'o session" where
  "part5_epoch_training T trainloader testloader s e =
     (case learn_batches T (model_train s) (trainloader e) of
        Inl err \<Rightarrow> Inl err
      | Inr r \<Rightarrow>
          Inr (r\<lparr>model := eval_mode (model r),
                 calls := calls r @ SetEval # concat (map (\<lambda>b. [Forward, Criterion]) (testloader e))\<rparr>))"

text \<open>
  Gradients with every entry zero, and the keys, shapes and sizes of the tensors of a state
  dict. Two sessions are trained alike when they have the same model, stored gradients,
  optimizer state and calls.
\<close>

definition zeros :: "state_dict_t \<Rightarrow> state_dict_t" where
  "zeros g = map (\<lambda>kt. (fst kt, (snd kt)\<lparr>data := replicate (length (data (snd kt))) 0\<rparr>)) g"

definition layout :: "state_dict_t \<Rightarrow> (pname \<times> nat list \<times> nat) list" where
  "layout g = map (\<lambda>kt. (fst kt, shape (snd kt), length (data (snd kt)))) g"

definition trained_alike :: "'o session \<Rightarrow> 'o session \<Rightarrow> bool" where
  "trained_alike s r =
     (model s = model r \<and> grads s = grads r \<and> optimizer s = optimizer r \<and> calls s = calls r)"

text \<open>
  The session a cell leaves behind, whether it ran to its end or raised: the variables of a
  notebook keep what was assigned before the error.
\<close>

definition session_after :: "(error \<times> 's) + 's \<Rightarrow> 's" where
  "session_after r = (case r of Inl et \<Rightarrow> snd et | Inr s \<Rightarrow> s)"

text \<open>
  The two architectures of the notebook, \<^verbatim>\<open>Network(784, 10, [512, 256, 128])\<close> and
  \<^verbatim>\<open>Network(784, 10, [400, 200, 100])\<close>, with every parameter zero.
\<close>

definition first_model :: network where
  "first_model =
     \<lparr>hidden_layers = [Linear (\<lambda>k i. 0) (Hidden 0) 784 512, Linear (\<lambda>k i. 0) (Hidden 1) 512 256,
                       Linear (\<lambda>k i. 0) (Hidden 2) 256 128],
      output_layer = Linear (\<lambda>k i. 0) Output 128 10, dropout = Some (1 / 2), training = True\<rparr>"

definition second_model :: network where
  "second_model =
     \<lparr>hidden_layers = [Linear (\<lambda>k i. 0) (Hidden 0) 784 400, Linear (\<lambda>k i. 0) (Hidden 1) 400 200,
                       Linear (\<lambda>k i. 0) (Hidden 2) 200 100],
      output_layer = Linear (\<lambda>k i. 0) Output 100 10, dropout = Some (1 / 2), training = True\<rparr>"

text \<open>
  A small checkpoint and the model it holds: one input, one hidden unit, two classes. The
  hidden unit copies a positive input, the first class takes the hidden unit as its score,
  the second class has score zero.
\<close>

definition small_checkpoint :: checkpoint where
  "small_checkpoint =
     \<lparr>ck_input_size = 1, ck_output_size = 2, ck_hidden_layers = [1],
      ck_state_dict =
        [(Hidden 0 Weight, \<lparr>shape = [1, 1], data = [1]\<rparr>),
         (Hidden 0 Bias, \<lparr>shape = [1], data = [0]\<rparr>),
         (Output Weight, \<lparr>shape = [2, 1], data = [1, 0]\<rparr>),
         (Output Bias, \<lparr>shape = [2], data = [0, 0]\<rparr>)]\<rparr>"

definition small_model :: network where
  "small_model =
     \<lparr>hidden_layers = [\<lparr>in_features = 1, out_features = 1,
                         weight = \<lparr>shape = [1, 1], data = [1]\<rparr>,
                         bias = \<lparr>shape = [1], data = [0]\<rparr>\<rparr>],
      output_layer = \<lparr>in_features = 1, out_features = 2,
                      weight = \<lparr>shape = [2, 1], data = [1, 0]\<rparr>,
                      bias = \<lparr>shape = [2], data = [0, 0]\<rparr>\<rparr>,
      dropout = Some (1 / 2), training = True\<rparr>"

text \<open>
  A library for trying the cells: no unit is dropped, every gradient is empty and the
  optimizer leaves the model as it is. \<open>with_cuda\<close> says whether the machine has CUDA.
\<close>

definition still_torch :: "bool \<Rightarrow> unit torch" where
  "still_torch with_cuda =
     \<lparr>cuda_available = with_cuda,
      dropout_noise = (\<lambda>n r k i. True),
      autograd = (\<lambda>m keep images labels. []),
      opt_update = (\<lambda>opt m g. (opt, m))\<rparr>"

text \<open>
  A library for trying the training steps: no unit is dropped, every partial derivative is
  1, and the optimizer subtracts the stored gradient from every parameter and counts its
  steps. \<open>unit_gradient\<close> is the gradient it gives for the small model, and
  \<open>small_model_stepped\<close> the small model after one step.
\<close>

definition sgd_torch :: "nat torch" where
  "sgd_torch =
     \<lparr>cuda_available = True,
      dropout_noise = (\<lambda>n r k i. True),
      autograd = (\<lambda>m keep images labels.
        map (\<lambda>kt. (fst kt, (snd kt)\<lparr>data := map (\<lambda>v. 1) (data (snd kt))\<rparr>)) (state_dict m)),
      opt_update = (\<lambda>opt m g.
        (Suc opt,
         case g of
           None \<Rightarrow> m
         | Some gr \<Rightarrow>
             loaded m (map (\<lambda>pg. (fst (fst pg),
                                   (snd (fst pg))\<lparr>data := map (\<lambda>vd. fst vd - snd vd)
                                                            (zip (data (snd (fst pg)))
                                                                 (data (snd (snd pg))))\<rparr>))
                        (zip (state_dict m) gr))))\<rparr>"

definition unit_gradient :: state_dict_t where
  "unit_gradient =
     [(Hidden 0 Weight, \<lparr>shape = [1, 1], data = [1]\<rparr>),
      (Hidden 0 Bias, \<lparr>shape = [1], data = [1]\<rparr>),
      (Output Weight, \<lparr>shape = [2, 1], data = [1, 1]\<rparr>),
      (Output Bias, \<lparr>shape = [2], data = [1, 1]\<rparr>)]"

definition small_model_stepped :: network where
  "small_model_stepped =
     \<lparr>hidden_layers = [\<lparr>in_features = 1, out_features = 1,
                         weight = \<lparr>shape = [1, 1], data = [0]\<rparr>,
                         bias = \<lparr>shape = [1], data = [- 1]\<rparr>\<rparr>],
      output_layer = \<lparr>in_features = 1, out_features = 2,
                      weight = \<lparr>shape = [2, 1], data = [0, - 1]\<rparr>,
                      bias = \<lparr>shape = [2], data = [- 1, - 1]\<rparr>\<rparr>,
      dropout = Some (1 / 2), training = True\<rparr>"

definition one_batch :: loader where
  "one_batch e = [([[1]], [0])]"

text \<open>
  The outputs of a model on the batches of a loader, each with the labels of its batch: what
  the validation loop computes with \<^verbatim>\<open>output = model(images)\<close> once the model is in
  evaluation mode.
\<close>

definition outputs_on :: "network \<Rightarrow> batch list \<Rightarrow> (real list list \<times> nat list) list" where
  "outputs_on m bs =
     map (\<lambda>b. (case forward_rows m (\<lambda>r k i. True) 0 (fst b) of Inl e \<Rightarrow> [] | Inr out \<Rightarrow> out, snd b))
       bs"

text \<open>
  Test runs over 10000 images in 156 batches of 64 and one of 16. In the first two every
  output row puts class 1 first: in \<open>all_right\<close> every label is 1, in \<open>last_batch_wrong\<close> the
  labels of the last batch are 0. In \<open>seven_in_eight_right\<close> every output row puts class 2
  first, and seven labels in eight are 2 in every batch: 56 of 64, and 14 of the last 16.
\<close>

definition all_right :: "(real list list \<times> nat list) list" where
  "all_right =
     replicate 156 (replicate 64 [0, 1], replicate 64 1) @ [(replicate 16 [0, 1], replicate 16 1)]"

definition last_batch_wrong :: "(real list list \<times> nat list) list" where
  "last_batch_wrong =
     replicate 156 (replicate 64 [0, 1], replicate 64 1) @ [(replicate 16 [0, 1], replicate 16 0)]"

definition seven_in_eight_right :: "(real list list \<times> nat list) list" where
  "seven_in_eight_right =
     replicate 156 (replicate 64 [0, 0, 1], replicate 56 2 @ replicate 8 0)
       @ [(replicate 16 [0, 0, 1], replicate 14 2 @ replicate 2 0)]"

section \<open>Properties of the state dict and of loading\<close>

lemma map_of_hidden_params_Output: "map_of (hidden_params k ls) (Output f) = None"
  by (induction ls arbitrary: k) (simp_all add: linear_params_def)

lemma map_of_hidden_params_Hidden:
  "map_of (hidden_params k ls) (Hidden j f) =
     (if k \<le> j \<and> j < k + length ls then Some (select f (ls ! (j - k))) else None)"
proof (induction ls arbitrary: k)
  case Nil
  then show ?case by simp
next
  case (Cons l ls)
  show ?case
  proof (cases "j = k")
    case True
    then show ?thesis by (cases f) (simp_all add: linear_params_def)
  next
    case False
    then show ?thesis
      using Cons.IH [of "Suc k"] by (auto simp: linear_params_def Suc_diff_le nth_Cons')
  qed
qed

lemma map_of_state_dict: "map_of (state_dict m) k = get_param m k"
proof (cases k)
  case (Hidden j f)
  then show ?thesis
    by (cases f) (auto simp: state_dict_def map_of_hidden_params_Hidden linear_params_def map_add_def split: option.splits)
next
  case (Output f)
  then show ?thesis
    by (cases f) (simp_all add: state_dict_def map_of_hidden_params_Output linear_params_def map_add_def)
qed

lemma keys_hidden_params:
  "map fst (hidden_params k ls) = concat (map (\<lambda>j. [Hidden j Weight, Hidden j Bias]) [k..<k + length ls])"
proof (induction ls arbitrary: k)
  case Nil
  then show ?case by simp
next
  case (Cons l ls)
  have "[k..<k + length (l # ls)] = k # [Suc k..<Suc k + length ls]"
    by (simp add: upt_rec)
  then show ?case using Cons.IH [of "Suc k"] by (simp add: linear_params_def)
qed

lemma distinct_keys_hidden: "distinct (map fst (hidden_params k ls))"
proof (induction ls arbitrary: k)
  case Nil
  then show ?case by simp
next
  case (Cons l ls)
  have "Hidden k f \<notin> set (map fst (hidden_params (Suc k) ls))" for f
    by (auto simp: keys_hidden_params)
  then show ?case using Cons.IH [of "Suc k"] by (auto simp: linear_params_def)
qed

lemma Output_not_hidden_key: "Output f \<notin> set (map fst (hidden_params k ls))"
  by (auto simp: keys_hidden_params)

lemma distinct_keys: "distinct (map fst (state_dict m))"
  using Output_not_hidden_key [of _ 0 "hidden_layers m"]
  by (simp add: state_dict_def distinct_keys_hidden linear_params_def)

lemma in_state_dict: "((k, p) \<in> set (state_dict m)) = (get_param m k = Some p)"
  using map_of_eq_Some_iff [OF distinct_keys, of m k p] by (simp add: map_of_state_dict)

lemma key_in_state_dict: "(k \<in> set (map fst (state_dict m))) = (get_param m k \<noteq> None)"
  using in_state_dict [of k _ m] by (force simp: image_iff)

lemma length_hidden_from [simp]: "length (hidden_from init k a hs) = length hs"
  by (induction hs arbitrary: k a) simp_all

lemma nth_hidden_from:
  "j < length hs \<Longrightarrow> hidden_from init k a hs ! j = Linear init (Hidden (k + j)) ((a # hs) ! j) (hs ! j)"
proof (induction hs arbitrary: k a j)
  case Nil
  then show ?case by simp
next
  case (Cons h hs)
  then show ?case by (cases j) simp_all
qed

lemma shape_select_Linear:
  "shape (select f (Linear init nm a b)) = (case f of Weight \<Rightarrow> [b, a] | Bias \<Rightarrow> [b])"
  by (cases f) (simp_all add: Linear_def new_tensor_def)

lemma Network_Inr:
  "Network a b H init = Inr m \<Longrightarrow>
     H \<noteq> [] \<and> hidden_layers m = hidden_from init 0 a H \<and>
     output_layer m = Linear init Output (last H) b \<and> dropout m = Some (1 / 2) \<and> training m"
  by (auto simp: Network_def split: list.splits)

lemma get_param_Network_Hidden:
  assumes "Network a b H init = Inr m"
  shows "get_param m (Hidden j f) =
     (if j < length H then Some (select f (Linear init (Hidden j) ((a # H) ! j) (H ! j))) else None)"
  using Network_Inr [OF assms] by (simp add: nth_hidden_from)

lemma get_param_Network_Output:
  assumes "Network a b H init = Inr m"
  shows "get_param m (Output f) = Some (select f (Linear init Output (last H) b))"
  using Network_Inr [OF assms] by simp

lemma size_mismatch_iff:
  "(size_mismatch (load_errors m sd) \<noteq> []) =
     (\<exists>k p t. get_param m k = Some p \<and> map_of sd k = Some t \<and> shape t \<noteq> shape p)"
proof -
  have "(size_mismatch (load_errors m sd) \<noteq> []) = (\<exists>kp \<in> set (state_dict m). mismatched sd kp)"
    by (simp add: load_errors_def filter_empty_conv)
  also have "\<dots> = (\<exists>k p. (k, p) \<in> set (state_dict m) \<and> mismatched sd (k, p))"
    by auto
  also have "\<dots> = (\<exists>k p. get_param m k = Some p \<and> mismatched sd (k, p))"
    by (simp only: in_state_dict)
  also have "\<dots> = (\<exists>k p t. get_param m k = Some p \<and> map_of sd k = Some t \<and> shape t \<noteq> shape p)"
    by (auto simp: mismatched_def split: option.splits)
  finally show ?thesis .
qed

lemma missing_keys_iff:
  "(missing_keys (load_errors m sd) \<noteq> []) = (\<exists>k. get_param m k \<noteq> None \<and> map_of sd k = None)"
proof -
  have "(missing_keys (load_errors m sd) \<noteq> []) = (\<exists>kp \<in> set (state_dict m). absent sd kp)"
    by (simp add: load_errors_def filter_empty_conv)
  also have "\<dots> = (\<exists>k p. (k, p) \<in> set (state_dict m) \<and> absent sd (k, p))"
    by auto
  also have "\<dots> = (\<exists>k p. get_param m k = Some p \<and> absent sd (k, p))"
    by (simp only: in_state_dict)
  also have "\<dots> = (\<exists>k. get_param m k \<noteq> None \<and> map_of sd k = None)"
    by (auto simp: absent_def)
  finally show ?thesis .
qed

lemma unexpected_keys_iff:
  "(unexpected_keys (load_errors m sd) \<noteq> []) = (\<exists>k. map_of sd k \<noteq> None \<and> get_param m k = None)"
proof -
  have "(unexpected_keys (load_errors m sd) \<noteq> []) =
          (\<exists>k \<in> set (map fst sd). k \<notin> set (map fst (state_dict m)))"
    by (simp add: load_errors_def filter_empty_conv del: set_map)
  also have "\<dots> = (\<exists>k \<in> set (map fst sd). get_param m k = None)"
    by (simp only: key_in_state_dict) simp
  also have "\<dots> = (\<exists>k. map_of sd k \<noteq> None \<and> get_param m k = None)"
    using map_of_eq_None_iff [of sd] by (metis set_map)
  finally show ?thesis .
qed

lemma copy_param_stored:
  "map_of sd k = Some t \<Longrightarrow> shape t = shape p \<Longrightarrow> copy_param sd k p = t"
  by (simp add: copy_param_def)

lemma shape_new_tensor [simp]: "shape (new_tensor init k shp) = shp"
  by (simp add: new_tensor_def)

lemma load_linear_stored:
  assumes "\<And>f. map_of sd (nm f) = Some (select f (Linear init nm a h))"
  shows "load_linear sd nm (Linear init' nm a h) = Linear init nm a h"
proof -
  have w: "copy_param sd (nm Weight) (weight (Linear init' nm a h)) = weight (Linear init nm a h)"
    using assms [of Weight] by (intro copy_param_stored) (simp_all add: Linear_def)
  have b: "copy_param sd (nm Bias) (bias (Linear init' nm a h)) = bias (Linear init nm a h)"
    using assms [of Bias] by (intro copy_param_stored) (simp_all add: Linear_def)
  show ?thesis
    unfolding load_linear_def w b by (simp add: Linear_def)
qed

lemma load_hidden_stored:
  assumes "\<And>j f. j < length hs \<Longrightarrow>
             map_of sd (Hidden (k + j) f) = Some (select f (hidden_from init k a hs ! j))"
  shows "load_hidden sd k (hidden_from init' k a hs) = hidden_from init k a hs"
  using assms
proof (induction hs arbitrary: k a)
  case Nil
  then show ?case by simp
next
  case (Cons h hs)
  have head: "load_linear sd (Hidden k) (Linear init' (Hidden k) a h) = Linear init (Hidden k) a h"
    using Cons.prems [of 0] by (intro load_linear_stored) simp
  have tail: "load_hidden sd (Suc k) (hidden_from init' (Suc k) h hs) = hidden_from init (Suc k) h hs"
  proof (rule Cons.IH)
    fix j f
    assume "j < length hs"
    then show "map_of sd (Hidden (Suc k + j) f) = Some (select f (hidden_from init (Suc k) h hs ! j))"
      using Cons.prems [of "Suc j" f] by simp
  qed
  show ?case by (simp add: head tail)
qed

lemma shape_Linear [simp]:
  "shape (weight (Linear init nm a b)) = [b, a]" "shape (bias (Linear init nm a b)) = [b]"
  by (simp_all add: Linear_def)

lemma shape_get_param:
  assumes "Network a b H init = Inr m"
  shows "map_option shape (get_param m k) = param_shape a b H k"
proof (cases k)
  case (Hidden j f)
  then show ?thesis
    using get_param_Network_Hidden [OF assms, of j f]
    by (cases f) auto
next
  case (Output f)
  then show ?thesis
    using get_param_Network_Output [OF assms, of f]
    by (cases f) auto
qed

lemma load_state_dict_same_widths:
  assumes m: "Network a b H init = Inr m" and m': "Network a b H init' = Inr m'"
  shows "load_state_dict m' (state_dict m) = Inr m"
proof -
  let ?sd = "state_dict m"
  note s = shape_get_param [OF m] shape_get_param [OF m']
  have same: "map_option shape (get_param m' k) = map_option shape (get_param m k)" for k
    by (simp add: s)
  have no_mismatch: "size_mismatch (load_errors m' ?sd) = []"
  proof (rule ccontr)
    assume "size_mismatch (load_errors m' ?sd) \<noteq> []"
    then obtain k p t where "get_param m' k = Some p" "get_param m k = Some t" "shape t \<noteq> shape p"
      by (auto simp: size_mismatch_iff map_of_state_dict)
    then show False using same [of k] by simp
  qed
  have no_missing: "missing_keys (load_errors m' ?sd) = []"
  proof (rule ccontr)
    assume "missing_keys (load_errors m' ?sd) \<noteq> []"
    then obtain k where "get_param m' k \<noteq> None" "get_param m k = None"
      by (auto simp: missing_keys_iff map_of_state_dict)
    then show False using same [of k] by auto
  qed
  have no_unexpected: "unexpected_keys (load_errors m' ?sd) = []"
  proof (rule ccontr)
    assume "unexpected_keys (load_errors m' ?sd) \<noteq> []"
    then obtain k where "get_param m k \<noteq> None" "get_param m' k = None"
      by (auto simp: unexpected_keys_iff map_of_state_dict)
    then show False using same [of k] by auto
  qed
  note M = Network_Inr [OF m] and M' = Network_Inr [OF m']
  have hid: "load_hidden ?sd 0 (hidden_layers m') = hidden_layers m"
  proof -
    have "load_hidden ?sd 0 (hidden_from init' 0 a H) = hidden_from init 0 a H"
    proof (rule load_hidden_stored)
      fix j f
      assume "j < length H"
      then show "map_of ?sd (Hidden (0 + j) f) = Some (select f (hidden_from init 0 a H ! j))"
        using M by (simp add: map_of_state_dict)
    qed
    then show ?thesis using M M' by simp
  qed
  have out: "load_linear ?sd Output (output_layer m') = output_layer m"
  proof -
    have "load_linear ?sd Output (Linear init' Output (last H) b) = Linear init Output (last H) b"
      using M by (intro load_linear_stored) (simp add: map_of_state_dict)
    then show ?thesis using M M' by simp
  qed
  have "m'\<lparr>hidden_layers := hidden_layers m, output_layer := output_layer m\<rparr> = m"
    using M M' by simp
  then show ?thesis
    by (simp add: load_state_dict_def no_mismatch no_missing no_unexpected hid out)
qed

lemma load_state_dict_fails:
  "size_mismatch (load_errors m sd) \<noteq> [] \<or> missing_keys (load_errors m sd) \<noteq> [] \<or>
   unexpected_keys (load_errors m sd) \<noteq> [] \<Longrightarrow>
   load_state_dict m sd = Inl (LoadError (load_errors m sd))"
  by (auto simp: load_state_dict_def Let_def)

lemma mismatch_equal_length:
  assumes m: "Network a b H init = Inr m" and m': "Network a b H' init' = Inr m'"
    and ne: "H' \<noteq> H" and len: "length H' = length H"
  shows "size_mismatch (load_errors m' (state_dict m)) \<noteq> []"
proof -
  from ne len obtain j where j: "j < length H" "H' ! j \<noteq> H ! j"
    by (auto simp: list_eq_iff_nth_eq)
  obtain p where p: "get_param m' (Hidden j Bias) = Some p" "shape p = [H' ! j]"
    using shape_get_param [OF m', of "Hidden j Bias"] j len by auto
  obtain t where t: "get_param m (Hidden j Bias) = Some t" "shape t = [H ! j]"
    using shape_get_param [OF m, of "Hidden j Bias"] j by auto
  show ?thesis
    unfolding size_mismatch_iff map_of_state_dict
    using p t j by (intro exI [of _ "Hidden j Bias"] exI [of _ p] exI [of _ t]) simp
qed

lemma missing_longer:
  assumes m: "Network a b H init = Inr m" and m': "Network a b H' init' = Inr m'"
    and len: "length H < length H'"
  shows "missing_keys (load_errors m' (state_dict m)) \<noteq> []"
proof -
  have "map_option shape (get_param m' (Hidden (length H) Bias)) \<noteq> None"
    unfolding shape_get_param [OF m'] using len by simp
  then have "get_param m' (Hidden (length H) Bias) \<noteq> None"
    by (simp del: get_param.simps)
  moreover have "map_option shape (get_param m (Hidden (length H) Bias)) = None"
    unfolding shape_get_param [OF m] by simp
  then have "get_param m (Hidden (length H) Bias) = None"
    by (simp del: get_param.simps)
  ultimately show ?thesis
    unfolding missing_keys_iff map_of_state_dict by blast
qed

lemma unexpected_shorter:
  assumes m: "Network a b H init = Inr m" and m': "Network a b H' init' = Inr m'"
    and len: "length H' < length H"
  shows "unexpected_keys (load_errors m' (state_dict m)) \<noteq> []"
proof -
  have "map_option shape (get_param m (Hidden (length H') Bias)) \<noteq> None"
    unfolding shape_get_param [OF m] using len by simp
  then have "get_param m (Hidden (length H') Bias) \<noteq> None"
    by (simp del: get_param.simps)
  moreover have "map_option shape (get_param m' (Hidden (length H') Bias)) = None"
    unfolding shape_get_param [OF m'] by simp
  then have "get_param m' (Hidden (length H') Bias) = None"
    by (simp del: get_param.simps)
  ultimately show ?thesis
    unfolding unexpected_keys_iff map_of_state_dict by blast
qed

text \<open>
  Every tensor of a shape is some draw of the initialiser: a statement about
  \<open>Network a b H init\<close> for every \<open>init\<close> is one about every model of widths \<open>H\<close>,
  whatever values training has left in it.
\<close>

lemma every_tensor_is_a_draw:
  assumes "length d = prod_list shp"
  shows "new_tensor (\<lambda>k' i. d ! i) k shp = \<lparr>shape = shp, data = d\<rparr>"
proof -
  have "map ((!) d) [0..<length d] = d"
    by (rule map_nth)
  then show ?thesis
    using assms by (simp add: new_tensor_def)
qed

lemma length_load_hidden [simp]: "length (load_hidden sd k ls) = length ls"
  by (induction ls arbitrary: k) simp_all

lemma nth_load_hidden:
  "j < length ls \<Longrightarrow> load_hidden sd k ls ! j = load_linear sd (Hidden (k + j)) (ls ! j)"
proof (induction ls arbitrary: k j)
  case Nil
  then show ?case by simp
next
  case (Cons l ls)
  then show ?case by (cases j) simp_all
qed

lemma select_load_linear: "select f (load_linear sd nm l) = copy_param sd (nm f) (select f l)"
  by (cases f) (simp_all add: load_linear_def)

lemma get_param_loaded: "get_param (loaded m sd) k = map_option (copy_param sd k) (get_param m k)"
proof (cases k)
  case (Hidden j f)
  then show ?thesis by (simp add: loaded_def nth_load_hidden select_load_linear)
next
  case (Output f)
  then show ?thesis by (simp add: loaded_def select_load_linear)
qed

lemma load_state_dict_Inr:
  assumes "load_state_dict m sd = Inr m'"
  shows "m' = loaded m sd"
    and "\<And>k p. get_param m k = Some p \<Longrightarrow> \<exists>t. map_of sd k = Some t \<and> shape t = shape p"
    and "\<And>k. get_param m k = None \<Longrightarrow> map_of sd k = None"
proof -
  from assms have ok: "size_mismatch (load_errors m sd) = []" "missing_keys (load_errors m sd) = []"
      "unexpected_keys (load_errors m sd) = []" and res: "m' = loaded m sd"
    by (auto simp: load_state_dict_def Let_def loaded_def split: if_splits)
  show "m' = loaded m sd" by (rule res)
  show "\<exists>t. map_of sd k = Some t \<and> shape t = shape p" if "get_param m k = Some p" for k p
  proof (cases "map_of sd k")
    case None
    then have "missing_keys (load_errors m sd) \<noteq> []"
      unfolding missing_keys_iff using that by auto
    then show ?thesis using ok by simp
  next
    case (Some t)
    have "shape t = shape p"
    proof (rule ccontr)
      assume "shape t \<noteq> shape p"
      then have "size_mismatch (load_errors m sd) \<noteq> []"
        unfolding size_mismatch_iff using that Some by blast
      then show False using ok by simp
    qed
    then show ?thesis using Some by simp
  qed
  show "map_of sd k = None" if "get_param m k = None" for k
  proof (rule ccontr)
    assume "map_of sd k \<noteq> None"
    then have "unexpected_keys (load_errors m sd) \<noteq> []"
      unfolding unexpected_keys_iff using that by blast
    then show False using ok by simp
  qed
qed

lemma load_state_dict_values:
  assumes "load_state_dict m sd = Inr m'"
  shows "map_of (state_dict m') = map_of sd"
proof
  fix k
  note L = load_state_dict_Inr [OF assms]
  show "map_of (state_dict m') k = map_of sd k"
  proof (cases "get_param m k")
    case None
    then show ?thesis
      using L(3) [of k] by (simp add: map_of_state_dict L(1) get_param_loaded)
  next
    case (Some p)
    then obtain t where "map_of sd k = Some t" "shape t = shape p"
      using L(2) by blast
    then show ?thesis
      using Some by (simp add: map_of_state_dict L(1) get_param_loaded copy_param_stored)
  qed
qed

lemma keys_load_hidden: "map fst (hidden_params k (load_hidden sd k ls)) = map fst (hidden_params k ls)"
  by (simp add: keys_hidden_params)

lemma load_state_dict_keys:
  assumes "load_state_dict m sd = Inr m'"
  shows "map fst (state_dict m') = map fst (state_dict m)"
  using load_state_dict_Inr(1) [OF assms]
  by (simp add: loaded_def state_dict_def keys_hidden_params linear_params_def)

lemma copy_param_new_tensor:
  "map_of sd k = Some t \<Longrightarrow> shape t = shp \<Longrightarrow> copy_param sd k (new_tensor init k shp) = t"
  by (simp add: copy_param_stored)

lemma load_linear_fresh:
  assumes "\<And>f. \<exists>t. map_of sd (nm f) = Some t \<and> shape t = shape (select f (Linear init nm a h))"
  shows "load_linear sd nm (Linear init nm a h) = load_linear sd nm (Linear init' nm a h)"
proof -
  obtain tw where tw: "map_of sd (nm Weight) = Some tw" "shape tw = [h, a]"
    using assms [of Weight] by auto
  obtain tb where tb: "map_of sd (nm Bias) = Some tb" "shape tb = [h]"
    using assms [of Bias] by auto
  have "load_linear sd nm (Linear i nm a h) =
          \<lparr>in_features = a, out_features = h, weight = tw, bias = tb\<rparr>" for i
    using tw tb by (simp add: load_linear_def Linear_def copy_param_new_tensor)
  then show ?thesis by simp
qed

lemma load_hidden_fresh:
  assumes "\<And>j f. j < length hs \<Longrightarrow>
     \<exists>t. map_of sd (Hidden (k + j) f) = Some t \<and> shape t = shape (select f (hidden_from init k a hs ! j))"
  shows "load_hidden sd k (hidden_from init k a hs) = load_hidden sd k (hidden_from init' k a hs)"
  using assms
proof (induction hs arbitrary: k a)
  case Nil
  then show ?case by simp
next
  case (Cons h hs)
  have head: "load_linear sd (Hidden k) (Linear init (Hidden k) a h) =
              load_linear sd (Hidden k) (Linear init' (Hidden k) a h)"
    using Cons.prems [of 0] by (intro load_linear_fresh) simp
  have tail: "load_hidden sd (Suc k) (hidden_from init (Suc k) h hs) =
              load_hidden sd (Suc k) (hidden_from init' (Suc k) h hs)"
  proof (rule Cons.IH)
    fix j f
    assume "j < length hs"
    then show "\<exists>t. map_of sd (Hidden (Suc k + j) f) = Some t \<and>
                  shape t = shape (select f (hidden_from init (Suc k) h hs ! j))"
      using Cons.prems [of "Suc j" f] by simp
  qed
  show ?case by (simp add: head tail)
qed

lemma load_state_dict_fresh:
  assumes m: "Network a b H init = Inr m" and m': "Network a b H init' = Inr m'"
    and ok: "load_state_dict m sd = Inr r"
  shows "load_state_dict m' sd = Inr r"
proof -
  note L = load_state_dict_Inr [OF ok]
  note s = shape_get_param [OF m] shape_get_param [OF m']
  have same: "map_option shape (get_param m' k) = map_option shape (get_param m k)" for k
    by (simp add: s)
  have no_mismatch: "size_mismatch (load_errors m' sd) = []"
  proof (rule ccontr)
    assume "size_mismatch (load_errors m' sd) \<noteq> []"
    then obtain k p t where k: "get_param m' k = Some p" "map_of sd k = Some t" "shape t \<noteq> shape p"
      by (auto simp: size_mismatch_iff)
    then obtain q where q: "get_param m k = Some q" "shape q = shape p"
      using same [of k] by (cases "get_param m k") auto
    then show False using L(2) [of k q] k by auto
  qed
  have no_missing: "missing_keys (load_errors m' sd) = []"
  proof (rule ccontr)
    assume "missing_keys (load_errors m' sd) \<noteq> []"
    then obtain k where k: "get_param m' k \<noteq> None" "map_of sd k = None"
      by (auto simp: missing_keys_iff)
    then obtain q where q: "get_param m k = Some q"
      using same [of k] by (cases "get_param m k") auto
    then show False using L(2) [of k q] k by auto
  qed
  have no_unexpected: "unexpected_keys (load_errors m' sd) = []"
  proof (rule ccontr)
    assume "unexpected_keys (load_errors m' sd) \<noteq> []"
    then obtain k where k: "map_of sd k \<noteq> None" "get_param m' k = None"
      by (auto simp: unexpected_keys_iff)
    then have "get_param m k = None"
      using same [of k] by (cases "get_param m k") auto
    then show False using L(3) [of k] k by auto
  qed
  note M = Network_Inr [OF m] and M' = Network_Inr [OF m']
  have hid: "load_hidden sd 0 (hidden_from init 0 a H) = load_hidden sd 0 (hidden_from init' 0 a H)"
  proof (rule load_hidden_fresh)
    fix j f
    assume j: "j < length H"
    then have "get_param m (Hidden j f) = Some (select f (hidden_from init 0 a H ! j))"
      using M by simp
    then show "\<exists>t. map_of sd (Hidden (0 + j) f) = Some t \<and>
                  shape t = shape (select f (hidden_from init 0 a H ! j))"
      using L(2) by simp
  qed
  have out: "load_linear sd Output (Linear init Output (last H) b) =
             load_linear sd Output (Linear init' Output (last H) b)"
  proof (rule load_linear_fresh)
    fix f
    have "get_param m (Output f) = Some (select f (Linear init Output (last H) b))"
      using M by simp
    then show "\<exists>t. map_of sd (Output f) = Some t \<and>
                  shape t = shape (select f (Linear init Output (last H) b))"
      using L(2) by blast
  qed
  have "loaded m' sd = loaded m sd"
    using M M' hid out by (simp add: loaded_def)
  then show ?thesis
    using L(1) by (simp add: load_state_dict_def no_mismatch no_missing no_unexpected loaded_def)
qed

lemma out_features_hidden_from: "map out_features (hidden_from init k a hs) = hs"
  by (induction hs arbitrary: k a) (simp_all add: Linear_def)

lemma dropout_forward_eval: "dropout_forward p False keep x = x"
  by (simp add: dropout_forward_def split: option.splits)

lemma forward_hidden_eval:
  "forward_hidden p False keep k ls x = forward_hidden p False keep' k ls x"
  by (induction ls arbitrary: k x) (simp_all add: dropout_forward_eval split: sum.splits)

lemma forward_eval_mode: "forward (eval_mode m) keep x = forward (eval_mode m) keep' x"
  using forward_hidden_eval [of "dropout m" keep 0 "hidden_layers m" x keep']
  by (simp add: forward_def eval_mode_def)

lemma load_small_checkpoint:
  "load_checkpoint [''checkpoint.pth'' \<mapsto> SavedCheckpoint small_checkpoint] init ''checkpoint.pth''
     = Inr small_model"
  by (simp add: load_checkpoint_def torch_load_def small_checkpoint_def small_model_def
      Network_def Linear_def new_tensor_def state_dict_def linear_params_def load_state_dict_def
      load_errors_def mismatched_def absent_def load_linear_def copy_param_def)

lemma forward_small_keep:
  "forward small_model (\<lambda>k i. True) [1] = Inr [2 - ln (exp 2 + 1), - ln (exp 2 + 1)]"
  by (simp add: small_model_def forward_def linear_forward_def dropout_forward_def relu_def
      log_softmax_def numeral_2_eq_2)

lemma forward_small_drop:
  "forward small_model (\<lambda>k i. False) [1] = Inr [- ln 2, - ln 2]"
  by (simp add: small_model_def forward_def linear_forward_def dropout_forward_def relu_def
      log_softmax_def numeral_2_eq_2)

lemma small_outputs_differ:
  "forward small_model (\<lambda>k i. True) [1] \<noteq> forward small_model (\<lambda>k i. False) [1]"
proof -
  have "exp (2::real) \<noteq> 1" by simp
  then have "exp (2::real) + 1 \<noteq> 2" by simp
  moreover have "0 < exp (2::real) + 1" by (simp add: add_pos_pos)
  ultimately have "ln (exp (2::real) + 1) \<noteq> ln 2"
    by (simp add: ln_inj_iff)
  then show ?thesis
    by (simp add: forward_small_keep forward_small_drop)
qed

lemma Network_first_model: "Network 784 10 [512, 256, 128] (\<lambda>k i. 0) = Inr first_model"
  by (simp add: Network_def first_model_def numeral_2_eq_2)

lemma Network_second_model: "Network 784 10 [400, 200, 100] (\<lambda>k i. 0) = Inr second_model"
  by (simp add: Network_def second_model_def numeral_2_eq_2)

text \<open>
  Every parameter of a new model is the draw of the initialiser for its key and shape, and
  \<open>load_checkpoint\<close> on a file that holds a checkpoint is the cell that builds a model anew
  and loads a state dict into it.
\<close>

lemma select_Linear: "select f (Linear init nm a b) = new_tensor init (nm f) (shape (select f (Linear init nm a b)))"
  by (cases f) (simp_all add: Linear_def)

lemma Network_parameters_drawn:
  assumes "Network a b H init = Inr net" and "map_of (state_dict net) k = Some t"
  shows "t = new_tensor init k (shape t)"
proof (cases k)
  case (Hidden j f)
  then show ?thesis
    using assms(2) get_param_Network_Hidden [OF assms(1), of j f] select_Linear [of f init "Hidden j"]
    by (auto simp: map_of_state_dict simp del: get_param.simps split: if_splits)
next
  case (Output f)
  then show ?thesis
    using assms(2) get_param_Network_Output [OF assms(1), of f] select_Linear [of f init Output]
    by (auto simp: map_of_state_dict simp del: get_param.simps)
qed

lemma Classifier_parameters_drawn:
  assumes "map_of (state_dict (Classifier init)) k = Some t"
  shows "t = new_tensor init k (shape t)"
  using assms
  by (auto simp: Classifier_def state_dict_def linear_params_def Linear_def numeral_2_eq_2
      split: if_splits)

lemma load_checkpoint_is_rebuild_and_load:
  "fs filepath = Some (SavedCheckpoint ck) \<Longrightarrow>
     load_checkpoint fs init filepath =
       rebuild_and_load (ck_input_size ck) (ck_output_size ck) (ck_hidden_layers ck) init
         (ck_state_dict ck)"
  by (simp add: load_checkpoint_def torch_load_def rebuild_and_load_def)

section \<open>Properties of the training loops\<close>

lemma call_model_calls:
  "call_model T s images = Inr (out, s') \<Longrightarrow> s' = s\<lparr>calls := calls s @ [Forward]\<rparr>"
  by (auto simp: call_model_def split: sum.splits)

lemma criterion_calls:
  "criterion s log_ps labels = Inr (loss, s') \<Longrightarrow> s' = s\<lparr>calls := calls s @ [Criterion]\<rparr>"
  by (auto simp: criterion_def split: sum.splits)

lemma learn_batch_calls:
  assumes "learn_batch T s b = Inr (loss, s')"
  shows "calls s' = calls s @ [ZeroGrad, Forward, Criterion, Backward, OptStep]"
proof -
  from assms obtain log_ps s2 l s3 where
    f: "call_model T (zero_grad s) (fst b) = Inr (log_ps, s2)" and
    c: "criterion s2 log_ps (snd b) = Inr (l, s3)" and
    r: "s' = optimizer_step T (backward T (length (calls (zero_grad s))) (fst b) (snd b) s3)"
    by (auto simp: learn_batch_def Let_def split: sum.splits)
  show ?thesis
    unfolding r using call_model_calls [OF f] criterion_calls [OF c]
    by (simp add: optimizer_step_def backward_def zero_grad_def)
qed

lemma for_each_invariant:
  assumes step: "\<And>a b. J (p a) \<Longrightarrow> (case body a b of Inl et \<Rightarrow> J (snd et) | Inr a' \<Rightarrow> J (p a'))"
    and start: "J (p a)"
  shows "case for_each body a bs of Inl et \<Rightarrow> J (snd et) | Inr a' \<Rightarrow> J (p a')"
  using start
proof (induction bs arbitrary: a)
  case Nil
  then show ?case by simp
next
  case (Cons b bs)
  show ?case
  proof (cases "body a b")
    case (Inl et)
    then show ?thesis using step [OF Cons.prems, of b] by simp
  next
    case (Inr a')
    then have "J (p a')" using step [OF Cons.prems, of b] by simp
    then show ?thesis using Cons.IH [of a'] Inr by simp
  qed
qed

lemma state_dict_training [simp]: "state_dict (m\<lparr>training := t\<rparr>) = state_dict m"
  by (simp add: state_dict_def)

lemma call_model_Inl: "call_model T s images = Inl (e, t) \<Longrightarrow> t = s"
  by (auto simp: call_model_def split: sum.splits)

lemma criterion_Inl: "criterion s log_ps labels = Inl (e, t) \<Longrightarrow> t = s"
  by (auto simp: criterion_def split: sum.splits)

lemma learn_batch_params:
  assumes noop: "\<And>opt m g. state_dict (snd (opt_update T opt m g)) = state_dict m"
  shows "case learn_batch T s b of
           Inl et \<Rightarrow> state_dict (model (snd et)) = state_dict (model s)
         | Inr ls \<Rightarrow> state_dict (model (snd ls)) = state_dict (model s)"
proof (cases "call_model T (zero_grad s) (fst b)")
  case (Inl et)
  then have "snd et = zero_grad s"
    using call_model_Inl [of T "zero_grad s" "fst b" "fst et" "snd et"] by simp
  then show ?thesis using Inl by (simp add: learn_batch_def Let_def zero_grad_def)
next
  case (Inr os)
  obtain out s2 where os: "os = (out, s2)" by (cases os)
  have s2: "s2 = (zero_grad s)\<lparr>calls := calls (zero_grad s) @ [Forward]\<rparr>"
    using call_model_calls [of T "zero_grad s" "fst b" out s2] Inr os by simp
  show ?thesis
  proof (cases "criterion s2 out (snd b)")
    case (Inl et)
    then have "snd et = s2"
      using criterion_Inl [of s2 out "snd b" "fst et" "snd et"] by simp
    then show ?thesis
      using Inl Inr os s2 by (simp add: learn_batch_def Let_def zero_grad_def)
  next
    case (Inr ls)
    obtain loss s3 where ls: "ls = (loss, s3)" by (cases ls)
    have s3: "s3 = s2\<lparr>calls := calls s2 @ [Criterion]\<rparr>"
      using criterion_calls [of s2 out "snd b" loss s3] Inr ls by simp
    show ?thesis
      using Inr ls \<open>call_model T (zero_grad s) (fst b) = Inr os\<close> os s2 s3 noop
      by (simp add: learn_batch_def Let_def zero_grad_def optimizer_step_def backward_def)
  qed
qed

lemma train_batch_params:
  assumes noop: "\<And>opt m g. state_dict (snd (opt_update T opt m g)) = state_dict m"
    and "state_dict (model (fst sr)) = sd"
  shows "case train_batch T sr b of
           Inl et \<Rightarrow> state_dict (model (snd et)) = sd
         | Inr sr' \<Rightarrow> state_dict (model (fst sr')) = sd"
  using learn_batch_params [OF noop, of "fst sr" b] assms(2)
  by (auto simp: train_batch_def split: sum.splits)

lemma part4_batch_params:
  assumes noop: "\<And>opt m g. state_dict (snd (opt_update T opt m g)) = state_dict m"
    and "state_dict (model (fst sr)) = sd"
  shows "case part4_batch T sr b of
           Inl et \<Rightarrow> state_dict (model (snd et)) = sd
         | Inr sr' \<Rightarrow> state_dict (model (fst sr')) = sd"
  using learn_batch_params [OF noop, of "fst sr" b] assms(2)
  by (auto simp: part4_batch_def split: sum.splits)

lemma validate_batch_model:
  assumes "model (fst sta) = m"
  shows "case validate_batch T sta b of
           Inl et \<Rightarrow> model (snd et) = m
         | Inr sta' \<Rightarrow> model (fst sta') = m"
proof (cases "cuda_available T")
  case False
  then show ?thesis using assms by (simp add: validate_batch_def)
next
  case True
  show ?thesis
  proof (cases "call_model T (fst sta) (fst b)")
    case (Inl et)
    then have "snd et = fst sta"
      using call_model_Inl [of T "fst sta" "fst b" "fst et" "snd et"] by simp
    then show ?thesis using Inl True assms by (simp add: validate_batch_def)
  next
    case (Inr os)
    obtain out s1 where os: "os = (out, s1)" by (cases os)
    have s1: "s1 = (fst sta)\<lparr>calls := calls (fst sta) @ [Forward]\<rparr>"
      using call_model_calls [of T "fst sta" "fst b" out s1] Inr os by simp
    show ?thesis
    proof (cases "criterion s1 out (snd b)")
      case (Inl et)
      then have "snd et = s1"
        using criterion_Inl [of s1 out "snd b" "fst et" "snd et"] by simp
      then show ?thesis
        using Inl \<open>call_model T (fst sta) (fst b) = Inr os\<close> os s1 True assms
        by (simp add: validate_batch_def)
    next
      case (Inr ls)
      obtain loss s2 where ls: "ls = (loss, s2)" by (cases ls)
      have "s2 = s1\<lparr>calls := calls s1 @ [Criterion]\<rparr>"
        using criterion_calls [of s1 out "snd b" loss s2] Inr ls by simp
      then show ?thesis
        using Inr ls \<open>call_model T (fst sta) (fst b) = Inr os\<close> os s1 True assms
        by (simp add: validate_batch_def)
    qed
  qed
qed

lemma validation_pass_model:
  "case for_each (validate_batch T) (s, l, a) bs of
     Inl et \<Rightarrow> model (snd et) = model s
   | Inr sta \<Rightarrow> model (fst sta) = model s"
  using for_each_invariant [where J = "\<lambda>t. model t = model s" and p = fst
      and body = "validate_batch T" and a = "(s, l, a)" and bs = bs]
    validate_batch_model [of _ "model s" T]
  by simp

lemma part5_epoch_params:
  assumes noop: "\<And>opt m g. state_dict (snd (opt_update T opt m g)) = state_dict m"
    and s: "state_dict (model s) = sd"
  shows "case part5_epoch T epochs trainloader testloader s e of
           Inl et \<Rightarrow> state_dict (model (snd et)) = sd
         | Inr s' \<Rightarrow> state_dict (model s') = sd"
proof -
  have tr: "case for_each (train_batch T) (model_train s, 0) (trainloader e) of
              Inl et \<Rightarrow> state_dict (model (snd et)) = sd
            | Inr sr \<Rightarrow> state_dict (model (fst sr)) = sd"
    using for_each_invariant [where J = "\<lambda>t. state_dict (model t) = sd" and p = fst
        and body = "train_batch T" and a = "(model_train s, 0)" and bs = "trainloader e"]
      train_batch_params [OF noop, of _ sd] s
    by (simp add: model_train_def)
  show ?thesis
  proof (cases "for_each (train_batch T) (model_train s, 0) (trainloader e)")
    case (Inl et)
    then show ?thesis using tr by (simp add: part5_epoch_def)
  next
    case (Inr sr)
    obtain s1 r where sr: "sr = (s1, r)" by (cases sr)
    have s1: "state_dict (model s1) = sd" using tr Inr sr by simp
    have va: "case for_each (validate_batch T) (model_eval s1, 0, 0) (testloader e) of
                Inl et \<Rightarrow> model (snd et) = model (model_eval s1)
              | Inr sta \<Rightarrow> model (fst sta) = model (model_eval s1)"
      by (rule validation_pass_model)
    have ev: "state_dict (model (model_eval s1)) = sd"
      using s1 by (simp add: model_eval_def eval_mode_def)
    show ?thesis
    proof (cases "for_each (validate_batch T) (model_eval s1, 0, 0) (testloader e)")
      case (Inl et)
      then show ?thesis
        using va ev \<open>for_each (train_batch T) (model_train s, 0) (trainloader e) = Inr sr\<close> sr
        by (simp add: part5_epoch_def)
    next
      case (Inr sta)
      obtain s2 l a where sta: "sta = (s2, l, a)" by (cases sta)
      have "state_dict (model s2) = sd" using va ev Inr sta by simp
      then show ?thesis
        using Inr sta \<open>for_each (train_batch T) (model_train s, 0) (trainloader e) = Inr sr\<close> sr
        by (simp add: part5_epoch_def Let_def)
    qed
  qed
qed

lemma part4_epoch_params:
  assumes noop: "\<And>opt m g. state_dict (snd (opt_update T opt m g)) = state_dict m"
    and s: "state_dict (model s) = sd"
  shows "case part4_epoch T trainloader s e of
           Inl et \<Rightarrow> state_dict (model (snd et)) = sd
         | Inr s' \<Rightarrow> state_dict (model s') = sd"
proof -
  have tr: "case for_each (part4_batch T) (s, 0) (trainloader e) of
              Inl et \<Rightarrow> state_dict (model (snd et)) = sd
            | Inr sr \<Rightarrow> state_dict (model (fst sr)) = sd"
    using for_each_invariant [where J = "\<lambda>t. state_dict (model t) = sd" and p = fst
        and body = "part4_batch T" and a = "(s, 0)" and bs = "trainloader e"]
      part4_batch_params [OF noop, of _ sd] s
    by simp
  then show ?thesis
    by (auto simp: part4_epoch_def split: sum.splits)
qed

lemma part5_loop_params:
  assumes noop: "\<And>opt m g. state_dict (snd (opt_update T opt m g)) = state_dict m"
  shows "state_dict (model (session_after (part5_loop T model0 opt0 epochs trainloader testloader)))
           = state_dict model0"
proof -
  have "case for_each (part5_epoch T epochs trainloader testloader)
               (new_session model0 (select_device T) opt0) [0..<epochs] of
          Inl et \<Rightarrow> state_dict (model (snd et)) = state_dict model0
        | Inr s' \<Rightarrow> state_dict (model s') = state_dict model0"
    using for_each_invariant [where J = "\<lambda>t. state_dict (model t) = state_dict model0"
        and p = "\<lambda>s. s" and body = "part5_epoch T epochs trainloader testloader"
        and a = "new_session model0 (select_device T) opt0" and bs = "[0..<epochs]"]
      part5_epoch_params [OF noop, of _ "state_dict model0"]
    by (simp add: new_session_def)
  then show ?thesis
    by (auto simp: part5_loop_def session_after_def split: sum.splits)
qed

lemma part4_loop_params:
  assumes noop: "\<And>opt m g. state_dict (snd (opt_update T opt m g)) = state_dict m"
  shows "state_dict (model (session_after (part4_loop T model0 opt0 epochs trainloader)))
           = state_dict model0"
proof -
  have "case for_each (part4_epoch T trainloader) (new_session model0 Cpu opt0) [0..<epochs] of
          Inl et \<Rightarrow> state_dict (model (snd et)) = state_dict model0
        | Inr s' \<Rightarrow> state_dict (model s') = state_dict model0"
    using for_each_invariant [where J = "\<lambda>t. state_dict (model t) = state_dict model0"
        and p = "\<lambda>s. s" and body = "part4_epoch T trainloader"
        and a = "new_session model0 Cpu opt0" and bs = "[0..<epochs]"]
      part4_epoch_params [OF noop, of _ "state_dict model0"]
    by (simp add: new_session_def)
  then show ?thesis
    by (auto simp: part4_loop_def session_after_def split: sum.splits)
qed

text \<open>
  The calls of a loop, whether it runs to its end or an error ends it: all the calls of its
  batches in the first case, a first part of them in the second.
\<close>

lemma for_each_calls:
  fixes body :: "'a \<Rightarrow> 'b \<Rightarrow> (error \<times> 'o session) + 'a" and p :: "'a \<Rightarrow> 'o session"
  assumes step: "\<And>a b. case body a b of
                     Inl et \<Rightarrow> \<exists>q. prefix q (f b) \<and> calls (snd et) = calls (p a) @ q
                   | Inr a' \<Rightarrow> calls (p a') = calls (p a) @ f b"
  shows "case for_each body a bs of
           Inl et \<Rightarrow> \<exists>q. prefix q (concat (map f bs)) \<and> calls (snd et) = calls (p a) @ q
         | Inr a' \<Rightarrow> calls (p a') = calls (p a) @ concat (map f bs)"
proof (induction bs arbitrary: a)
  case Nil
  then show ?case by simp
next
  case (Cons b bs)
  show ?case
  proof (cases "body a b")
    case (Inl et)
    then obtain q where "prefix q (f b)" "calls (snd et) = calls (p a) @ q"
      using step [where a = a and b = b] by auto
    then have "prefix q (concat (map f (b # bs))) \<and> calls (snd et) = calls (p a) @ q"
      by (simp add: prefix_prefix)
    then show ?thesis using Inl by auto
  next
    case (Inr a')
    then have one: "calls (p a') = calls (p a) @ f b"
      using step [where a = a and b = b] by simp
    show ?thesis
    proof (cases "for_each body a' bs")
      case (Inl et)
      then obtain q where "prefix q (concat (map f bs))" "calls (snd et) = calls (p a') @ q"
        using Cons.IH [of a'] by auto
      then have "prefix (f b @ q) (concat (map f (b # bs))) \<and>
                 calls (snd et) = calls (p a) @ f b @ q"
        using one by simp
      then show ?thesis using Inl \<open>body a b = Inr a'\<close> by auto
    next
      case (Inr a'')
      then have "calls (p a'') = calls (p a') @ concat (map f bs)"
        using Cons.IH [of a'] by simp
      then show ?thesis using Inr \<open>body a b = Inr a'\<close> one by simp
    qed
  qed
qed

lemma learn_batch_all_calls:
  "case learn_batch T s b of
     Inl et \<Rightarrow> \<exists>q. prefix q [ZeroGrad, Forward, Criterion, Backward, OptStep] \<and>
                 calls (snd et) = calls s @ q
   | Inr ls \<Rightarrow> calls (snd ls) = calls s @ [ZeroGrad, Forward, Criterion, Backward, OptStep]"
proof (cases "learn_batch T s b")
  case (Inr ls)
  obtain loss s' where "ls = (loss, s')" by (cases ls)
  then show ?thesis using Inr learn_batch_calls [of T s b loss s'] by simp
next
  case (Inl et)
  show ?thesis
  proof (cases "call_model T (zero_grad s) (fst b)")
    case failed: (Inl et')
    then have "snd et' = zero_grad s"
      using call_model_Inl [of T "zero_grad s" "fst b" "fst et'" "snd et'"] by simp
    then have "calls (snd et) = calls s @ [ZeroGrad]"
      using Inl failed by (simp add: learn_batch_def Let_def zero_grad_def)
    moreover have "prefix [ZeroGrad] [ZeroGrad, Forward, Criterion, Backward, OptStep]"
      by simp
    ultimately show ?thesis using Inl by auto
  next
    case (Inr os)
    obtain out s2 where os: "os = (out, s2)" by (cases os)
    have s2: "s2 = (zero_grad s)\<lparr>calls := calls (zero_grad s) @ [Forward]\<rparr>"
      using call_model_calls [of T "zero_grad s" "fst b" out s2] Inr os by simp
    show ?thesis
    proof (cases "criterion s2 out (snd b)")
      case failed: (Inl et')
      then have "snd et' = s2"
        using criterion_Inl [of s2 out "snd b" "fst et'" "snd et'"] by simp
      then have "calls (snd et) = calls s @ [ZeroGrad, Forward]"
        using Inl failed Inr os s2 by (simp add: learn_batch_def Let_def zero_grad_def)
      moreover have "prefix [ZeroGrad, Forward] [ZeroGrad, Forward, Criterion, Backward, OptStep]"
        by simp
      ultimately show ?thesis using Inl by auto
    next
      case ok: (Inr ls)
      obtain loss s3 where "ls = (loss, s3)" by (cases ls)
      then have False
        using Inl Inr os ok by (simp add: learn_batch_def Let_def)
      then show ?thesis ..
    qed
  qed
qed

lemma part4_batch_all_calls:
  "case part4_batch T sr b of
     Inl et \<Rightarrow> \<exists>q. prefix q [ZeroGrad, Forward, Criterion, Backward, OptStep] \<and>
                 calls (snd et) = calls (fst sr) @ q
   | Inr sr' \<Rightarrow> calls (fst sr') = calls (fst sr) @ [ZeroGrad, Forward, Criterion, Backward, OptStep]"
  using learn_batch_all_calls [where T = T and s = "fst sr" and b = b]
  by (auto simp: part4_batch_def split: sum.splits)

lemma train_batch_all_calls:
  "case train_batch T sr b of
     Inl et \<Rightarrow> \<exists>q. prefix q [ZeroGrad, Forward, Criterion, Backward, OptStep] \<and>
                 calls (snd et) = calls (fst sr) @ q
   | Inr sr' \<Rightarrow> calls (fst sr') = calls (fst sr) @ [ZeroGrad, Forward, Criterion, Backward, OptStep]"
  using learn_batch_all_calls [where T = T and s = "fst sr" and b = b]
  by (auto simp: train_batch_def split: sum.splits)

lemma validate_batch_all_calls:
  "case validate_batch T sta b of
     Inl et \<Rightarrow> \<exists>q. prefix q [Forward, Criterion] \<and> calls (snd et) = calls (fst sta) @ q
   | Inr sta' \<Rightarrow> calls (fst sta') = calls (fst sta) @ [Forward, Criterion]"
proof (cases "cuda_available T")
  case False
  then show ?thesis by (simp add: validate_batch_def)
next
  case True
  show ?thesis
  proof (cases "call_model T (fst sta) (fst b)")
    case (Inl et)
    then have "snd et = fst sta"
      using call_model_Inl [of T "fst sta" "fst b" "fst et" "snd et"] by simp
    then show ?thesis using Inl True by (simp add: validate_batch_def)
  next
    case (Inr os)
    obtain out s1 where os: "os = (out, s1)" by (cases os)
    have s1: "s1 = (fst sta)\<lparr>calls := calls (fst sta) @ [Forward]\<rparr>"
      using call_model_calls [of T "fst sta" "fst b" out s1] Inr os by simp
    show ?thesis
    proof (cases "criterion s1 out (snd b)")
      case failed: (Inl et)
      then have "snd et = s1"
        using criterion_Inl [of s1 out "snd b" "fst et" "snd et"] by simp
      then have "calls (snd et) = calls (fst sta) @ [Forward]"
        using s1 by simp
      moreover have "prefix [Forward] [Forward, Criterion]" by simp
      ultimately show ?thesis
        using failed Inr os True by (auto simp: validate_batch_def)
    next
      case ok: (Inr ls)
      obtain loss s2 where ls: "ls = (loss, s2)" by (cases ls)
      have "s2 = s1\<lparr>calls := calls s1 @ [Criterion]\<rparr>"
        using criterion_calls [of s1 out "snd b" loss s2] ok ls by simp
      then show ?thesis
        using ok ls Inr os s1 True by (simp add: validate_batch_def)
    qed
  qed
qed

lemma part5_epoch_all_calls:
  "case part5_epoch T epochs trainloader testloader s e of
     Inl et \<Rightarrow> \<exists>q. prefix q (part5_epoch_calls trainloader testloader e) \<and>
                 calls (snd et) = calls s @ q
   | Inr s' \<Rightarrow> calls s' = calls s @ part5_epoch_calls trainloader testloader e"
proof -
  let ?five = "\<lambda>b::batch. [ZeroGrad, Forward, Criterion, Backward, OptStep]"
  let ?two = "\<lambda>b::batch. [Forward, Criterion]"
  have tr: "case for_each (train_batch T) (model_train s, 0) (trainloader e) of
      Inl et \<Rightarrow> \<exists>q. prefix q (concat (map ?five (trainloader e))) \<and>
                  calls (snd et) = calls (model_train s) @ q
    | Inr sr \<Rightarrow> calls (fst sr) = calls (model_train s) @ concat (map ?five (trainloader e))"
    using for_each_calls [where body = "train_batch T" and p = fst and f = ?five
        and a = "(model_train s, 0)" and bs = "trainloader e"] train_batch_all_calls [where T = T]
    by (simp cong: sum.case_cong)
  show ?thesis
  proof (cases "for_each (train_batch T) (model_train s, 0) (trainloader e)")
    case (Inl et)
    then obtain q where q: "prefix q (concat (map ?five (trainloader e)))"
        "calls (snd et) = calls (model_train s) @ q"
      using tr by auto
    have "prefix (SetTrain # q) (part5_epoch_calls trainloader testloader e)"
      using q(1) by (simp add: part5_epoch_calls_def prefix_prefix)
    moreover have "calls (snd et) = calls s @ SetTrain # q"
      using q(2) by (simp add: model_train_def)
    ultimately show ?thesis
      using Inl by (auto simp: part5_epoch_def)
  next
    case (Inr sr)
    obtain s1 r where sr: "sr = (s1, r)" by (cases sr)
    have s1: "calls s1 = calls s @ SetTrain # concat (map ?five (trainloader e))"
      using tr Inr sr by (simp add: model_train_def)
    have va: "case for_each (validate_batch T) (model_eval s1, 0, 0) (testloader e) of
        Inl et \<Rightarrow> \<exists>q. prefix q (concat (map ?two (testloader e))) \<and>
                    calls (snd et) = calls (model_eval s1) @ q
      | Inr sta \<Rightarrow> calls (fst sta) = calls (model_eval s1) @ concat (map ?two (testloader e))"
      using for_each_calls [where body = "validate_batch T" and p = fst and f = ?two
          and a = "(model_eval s1, 0, 0)" and bs = "testloader e"] validate_batch_all_calls [where T = T]
      by (simp cong: sum.case_cong)
    show ?thesis
    proof (cases "for_each (validate_batch T) (model_eval s1, 0, 0) (testloader e)")
      case (Inl et)
      then obtain q where q: "prefix q (concat (map ?two (testloader e)))"
          "calls (snd et) = calls (model_eval s1) @ q"
        using va by auto
      have "prefix (SetTrain # concat (map ?five (trainloader e)) @ SetEval # q)
              (part5_epoch_calls trainloader testloader e)"
        using q(1) by (simp add: part5_epoch_calls_def)
      moreover have "calls (snd et) =
          calls s @ SetTrain # concat (map ?five (trainloader e)) @ SetEval # q"
        using q(2) s1 by (simp add: model_eval_def)
      ultimately show ?thesis
        using Inl Inr sr by (auto simp: part5_epoch_def)
    next
      case ok: (Inr sta)
      obtain s2 l a where sta: "sta = (s2, l, a)" by (cases sta)
      have s2: "calls s2 = calls s @ part5_epoch_calls trainloader testloader e"
        using va ok sta s1 by (simp add: model_eval_def part5_epoch_calls_def)
      have "prefix (part5_epoch_calls trainloader testloader e)
              (part5_epoch_calls trainloader testloader e)"
        by simp
      then show ?thesis
        using ok sta Inr sr s2 by (auto simp: part5_epoch_def Let_def)
    qed
  qed
qed

lemma part4_epoch_all_calls:
  "case part4_epoch T trainloader s e of
     Inl et \<Rightarrow> \<exists>q. prefix q (part4_epoch_calls trainloader e) \<and> calls (snd et) = calls s @ q
   | Inr s' \<Rightarrow> calls s' = calls s @ part4_epoch_calls trainloader e"
proof -
  let ?five = "\<lambda>b::batch. [ZeroGrad, Forward, Criterion, Backward, OptStep]"
  have tr: "case for_each (part4_batch T) (s, 0) (trainloader e) of
      Inl et \<Rightarrow> \<exists>q. prefix q (concat (map ?five (trainloader e))) \<and> calls (snd et) = calls s @ q
    | Inr sr \<Rightarrow> calls (fst sr) = calls s @ concat (map ?five (trainloader e))"
    using for_each_calls [where body = "part4_batch T" and p = fst and f = ?five
        and a = "(s, 0)" and bs = "trainloader e"] part4_batch_all_calls [where T = T]
    by (simp cong: sum.case_cong)
  have "prefix (part4_epoch_calls trainloader e) (part4_epoch_calls trainloader e)"
    by simp
  then show ?thesis
    using tr by (auto simp: part4_epoch_def part4_epoch_calls_def split: sum.splits)
qed

lemma part5_loop_all_calls:
  "case part5_loop T model0 opt0 epochs trainloader testloader of
     Inl et \<Rightarrow> \<exists>q. prefix q (concat (map (part5_epoch_calls trainloader testloader) [0..<epochs])) \<and>
                 calls (snd et) = q
   | Inr s' \<Rightarrow> calls s' = concat (map (part5_epoch_calls trainloader testloader) [0..<epochs])"
  using for_each_calls [where body = "part5_epoch T epochs trainloader testloader" and p = "\<lambda>s. s"
      and f = "part5_epoch_calls trainloader testloader"
      and a = "new_session model0 (select_device T) opt0" and bs = "[0..<epochs]"]
    part5_epoch_all_calls [where T = T and epochs = epochs and trainloader = trainloader
      and testloader = testloader]
  by (simp add: part5_loop_def new_session_def cong: sum.case_cong)

lemma part4_loop_all_calls:
  "case part4_loop T model0 opt0 epochs trainloader of
     Inl et \<Rightarrow> \<exists>q. prefix q (concat (map (part4_epoch_calls trainloader) [0..<epochs])) \<and>
                 calls (snd et) = q
   | Inr s' \<Rightarrow> calls s' = concat (map (part4_epoch_calls trainloader) [0..<epochs])"
  using for_each_calls [where body = "part4_epoch T trainloader" and p = "\<lambda>s. s"
      and f = "part4_epoch_calls trainloader"
      and a = "new_session model0 Cpu opt0" and bs = "[0..<epochs]"]
    part4_epoch_all_calls [where T = T and trainloader = trainloader]
  by (simp add: part4_loop_def new_session_def cong: sum.case_cong)

text \<open>The two cells as the notebooks have them, with 30 and with 5 epochs.\<close>

lemma part5_cell_calls:
  "part5_cell T init opt0 trainloader testloader = Inr s \<Longrightarrow>
     calls s = concat (map (part5_epoch_calls trainloader testloader) [0..<30])"
  using part5_loop_all_calls [where T = T and ?model0.0 = "Classifier init" and ?opt0.0 = opt0
      and epochs = 30 and trainloader = trainloader and testloader = testloader]
  by (simp add: part5_cell_def)

lemma part4_cell_calls:
  "part4_cell T init opt0 trainloader = Inr s \<Longrightarrow>
     calls s = concat (map (part4_epoch_calls trainloader) [0..<5])"
  using part4_loop_all_calls [where T = T and ?model0.0 = "Sequential_model init" and ?opt0.0 = opt0
      and epochs = 5 and trainloader = trainloader]
  by (simp add: part4_cell_def)

section \<open>Properties of the reported accuracy\<close>

lemma sum_list_indicator:
  "(\<Sum>b\<leftarrow>bs. if b then 1 else (0::real)) = real (length (filter (\<lambda>b. b) bs))"
  by (induction bs) simp_all

lemma mean_float_equals:
  "mean_float (equals (fst ol) (snd ol)) = real (correct ol) / real (batch_size ol)"
  by (simp add: mean_float_def correct_def batch_size_def sum_list_indicator)

lemma fold_accuracy_step:
  "fold (\<lambda>ol accuracy. accuracy_step accuracy (fst ol) (snd ol)) outs a =
     a + (\<Sum>ol\<leftarrow>outs. real (correct ol) / real (batch_size ol))"
  by (induction outs arbitrary: a) (simp_all add: accuracy_step_def mean_float_equals)

lemma test_accuracy_mean:
  "test_accuracy outs =
     (\<Sum>ol\<leftarrow>outs. real (correct ol) / real (batch_size ol)) * 100 / real (length outs)"
  by (simp add: test_accuracy_def fold_accuracy_step)

lemma sum_list_same_size:
  "\<forall>ol \<in> set outs. batch_size ol = n \<Longrightarrow>
     (\<Sum>ol\<leftarrow>outs. real (correct ol) / real (batch_size ol)) = real (\<Sum>ol\<leftarrow>outs. correct ol) / real n"
  by (induction outs) (simp_all add: add_divide_distrib)

lemma last_batch_split:
  assumes "map batch_size outs = replicate 156 64 @ [16]"
  shows "outs = butlast outs @ [last outs]" and "length outs = 157"
    and "\<forall>ol \<in> set (butlast outs). batch_size ol = 64" and "batch_size (last outs) = 16"
proof -
  from assms have ne: "outs \<noteq> []" by auto
  then show "outs = butlast outs @ [last outs]" by simp
  have "length (map batch_size outs) = 157" unfolding assms by simp
  then show "length outs = 157" by simp
  have "map batch_size (butlast outs) = butlast (map batch_size outs)"
    by (simp add: map_butlast)
  also have "\<dots> = replicate 156 64" unfolding assms by simp
  finally have "set (map batch_size (butlast outs)) \<subseteq> {64}" by simp
  then show "\<forall>ol \<in> set (butlast outs). batch_size ol = 64" by auto
  have "batch_size (last outs) = last (map batch_size outs)"
    using ne by (simp add: last_map)
  then show "batch_size (last outs) = 16" unfolding assms by simp
qed

lemma reported_and_exact_accuracy:
  assumes sizes: "map batch_size outs = replicate 156 64 @ [16]"
  shows "test_accuracy outs =
           (real (\<Sum>ol\<leftarrow>butlast outs. correct ol) / 64 + real (correct (last outs)) / 16) * 100 / 157"
    and "share_correct outs =
           real ((\<Sum>ol\<leftarrow>butlast outs. correct ol) + correct (last outs)) * 100 / 10000"
proof -
  note S = last_batch_split [OF sizes]
  let ?f = "\<lambda>ol. real (correct ol) / real (batch_size ol)"
  have "(\<Sum>ol\<leftarrow>outs. ?f ol) = (\<Sum>ol\<leftarrow>butlast outs @ [last outs]. ?f ol)"
    using S(1) by simp
  also have "\<dots> = (\<Sum>ol\<leftarrow>butlast outs. ?f ol) + ?f (last outs)"
    by simp
  also have "\<dots> = real (\<Sum>ol\<leftarrow>butlast outs. correct ol) / 64 + real (correct (last outs)) / 16"
    using sum_list_same_size [OF S(3)] S(4) by simp
  finally show "test_accuracy outs =
      (real (\<Sum>ol\<leftarrow>butlast outs. correct ol) / 64 + real (correct (last outs)) / 16) * 100 / 157"
    by (simp add: test_accuracy_mean S(2))
  have "(\<Sum>ol\<leftarrow>outs. correct ol) = (\<Sum>ol\<leftarrow>butlast outs @ [last outs]. correct ol)"
    using S(1) by simp
  then have c: "(\<Sum>ol\<leftarrow>outs. correct ol) = (\<Sum>ol\<leftarrow>butlast outs. correct ol) + correct (last outs)"
    by simp
  have n: "(\<Sum>ol\<leftarrow>outs. batch_size ol) = 10000"
    unfolding sizes by (simp add: sum_list_replicate)
  show "share_correct outs =
      real ((\<Sum>ol\<leftarrow>butlast outs. correct ol) + correct (last outs)) * 100 / 10000"
    by (simp add: share_correct_def c n)
qed

lemma reported_equals_exact_iff:
  assumes sizes: "map batch_size outs = replicate 156 64 @ [16]"
  shows "(test_accuracy outs = share_correct outs) =
         ((\<Sum>ol\<leftarrow>butlast outs. correct ol) = 624 * correct (last outs))"
proof -
  let ?C = "\<Sum>ol\<leftarrow>butlast outs. correct ol" and ?d = "correct (last outs)"
  have "(test_accuracy outs = share_correct outs) =
        ((real ?C / 64 + real ?d / 16) * 100 / 157 = real (?C + ?d) * 100 / 10000)"
    by (simp only: reported_and_exact_accuracy [OF sizes])
  also have "\<dots> = (real ?C = 624 * real ?d)"
    by (auto simp: field_simps)
  also have "\<dots> = (real ?C = real (624 * ?d))"
    by simp
  also have "\<dots> = (?C = 624 * ?d)"
    by (simp only: of_nat_eq_iff)
  finally show ?thesis .
qed

text \<open>
  With 156 batches of 64 and one of 16 an image of the last batch weighs four times as much
  in the computed accuracy as an image of another batch: the computed accuracy exceeds the
  share by 3 (624 c - a) / 62800, for \<open>c\<close> images right in the last batch and \<open>a\<close> in the
  others.
\<close>

lemma reported_minus_exact:
  assumes sizes: "map batch_size outs = replicate 156 64 @ [16]"
  shows "test_accuracy outs - share_correct outs =
         3 * (624 * real (correct (last outs)) - real (\<Sum>ol\<leftarrow>butlast outs. correct ol)) / 62800"
  by (simp add: reported_and_exact_accuracy [OF sizes] field_simps)

lemma format_3f_whole: "format_3f (of_int k) = of_int k"
proof -
  have "\<lfloor>(of_int k :: real) * 1000\<rfloor> = k * 1000"
    by (metis floor_of_int of_int_mult of_int_numeral)
  then show ?thesis
    by (simp add: format_3f_def Let_def)
qed

lemma format_3f_100 [simp]: "format_3f 100 = 100"
  using format_3f_whole [of 100] by simp

lemma forward_not_training:
  "\<not> training m \<Longrightarrow> forward m keep x = forward m keep' x"
  using forward_hidden_eval [of "dropout m" keep 0 "hidden_layers m" x keep']
  by (simp add: forward_def)

lemma forward_rows_not_training:
  "\<not> training m \<Longrightarrow> forward_rows m keep r xs = forward_rows m keep' r' xs"
proof (induction xs arbitrary: r r')
  case Nil
  then show ?case by simp
next
  case (Cons x xs)
  have "forward m (keep r) x = forward m (keep' r') x"
    using Cons.prems by (rule forward_not_training)
  then show ?case
    using Cons.IH [OF Cons.prems, of "Suc r" "Suc r'"] by (simp split: sum.splits)
qed

lemma validate_batches_accuracy:
  assumes "for_each (validate_batch T) (s, l, a) bs = Inr (s', l', a')"
    and "\<not> training (model s)"
  shows "a' = fold (\<lambda>ol accuracy. accuracy_step accuracy (fst ol) (snd ol))
                (outputs_on (model s) bs) a \<and> model s' = model s"
  using assms
proof (induction bs arbitrary: s l a)
  case Nil
  then show ?case by (simp add: outputs_on_def)
next
  case (Cons b bs)
  from Cons.prems(1) obtain s1 l1 a1 where
    step: "validate_batch T (s, l, a) b = Inr (s1, l1, a1)" and
    rest: "for_each (validate_batch T) (s1, l1, a1) bs = Inr (s', l', a')"
    by (auto split: sum.splits)
  from step obtain out s2 loss where
    f: "call_model T s (fst b) = Inr (out, s2)" and
    c: "criterion s2 out (snd b) = Inr (loss, s1)" and
    a1: "a1 = accuracy_step a out (snd b)"
    by (auto simp: validate_batch_def split: sum.splits if_splits)
  have m1: "model s1 = model s"
    using call_model_calls [OF f] criterion_calls [OF c] by simp
  from f have "forward_rows (model s) (dropout_noise T (length (calls s))) 0 (fst b) = Inr out"
    by (auto simp: call_model_def split: sum.splits)
  then have out: "forward_rows (model s) (\<lambda>r k i. True) 0 (fst b) = Inr out"
    using forward_rows_not_training [OF Cons.prems(2), of "\<lambda>r k i. True" 0 "fst b"
        "dropout_noise T (length (calls s))" 0]
    by simp
  have "a' = fold (\<lambda>ol accuracy. accuracy_step accuracy (fst ol) (snd ol))
                (outputs_on (model s1) bs) a1 \<and> model s' = model s1"
    using Cons.IH [OF rest] Cons.prems(2) m1 by simp
  then show ?case
    using m1 a1 out by (simp add: outputs_on_def)
qed

lemma part5_epoch_printed:
  assumes "part5_epoch T epochs trainloader testloader s e = Inr s'"
  shows "last (last (printed s')) =
           format_3f (test_accuracy (outputs_on (model s') (testloader e)))"
proof -
  from assms obtain s1 r s2 l a where
    va: "for_each (validate_batch T) (model_eval s1, 0, 0) (testloader e) = Inr (s2, l, a)" and
    m: "model s' = model s2" and
    p: "last (last (printed s')) = format_3f (a * 100 / real (length (testloader e)))"
    by (auto simp: part5_epoch_def Let_def split: sum.splits if_splits)
  have "\<not> training (model (model_eval s1))"
    by (simp add: model_eval_def eval_mode_def)
  from validate_batches_accuracy [OF va this]
  have "a = fold (\<lambda>ol accuracy. accuracy_step accuracy (fst ol) (snd ol))
                (outputs_on (model s2) (testloader e)) 0" and "model s2 = model (model_eval s1)"
    by simp_all
  then show ?thesis
    using p m by (simp add: test_accuracy_def outputs_on_def)
qed

lemma argmax_example [simp]: "argmax [0, 1] = 1"
  by (simp add: argmax_def)

lemma correct_replicate:
  "correct (replicate n row, replicate n l) = (if argmax row = l then n else 0)"
  by (simp add: correct_def equals_def zip_replicate)

lemma batch_size_replicate [simp]: "batch_size (replicate n row, replicate n l) = n"
  by (simp add: batch_size_def equals_def)

lemma sizes_all_right: "map batch_size all_right = replicate 156 64 @ [16]"
  by (simp add: all_right_def)

lemma sizes_last_batch_wrong: "map batch_size last_batch_wrong = replicate 156 64 @ [16]"
  by (simp add: last_batch_wrong_def)

text \<open>
  With the last batch wrong and all others right the cell prints 99.363 where 99.84 percent
  of the images are classified correctly.
\<close>

lemma last_batch_wrong_values:
  "test_accuracy last_batch_wrong = 15600 / 157 \<and> share_correct last_batch_wrong = 9984 / 100"
  using reported_and_exact_accuracy [OF sizes_last_batch_wrong]
  by (simp add: last_batch_wrong_def correct_replicate sum_list_replicate)

lemma last_batch_wrong_printed:
  "format_3f (test_accuracy last_batch_wrong) = 99363 / 1000"
proof -
  have "\<lfloor>15600 / 157 * (1000::real)\<rfloor> = 99363"
    by (simp add: floor_eq_iff)
  then show ?thesis
    by (simp add: last_batch_wrong_values format_3f_def Let_def)
qed

lemma part5_epoch_small_run:
  "\<exists>s'. part5_epoch (still_torch True) 1 one_batch one_batch (new_session small_model Cuda0 ()) 0
          = Inr s'"
  by (simp add: part5_epoch_def train_batch_def validate_batch_def learn_batch_def call_model_def
      criterion_def nll_loss_def backward_def optimizer_step_def zero_grad_def model_train_def
      model_eval_def new_session_def accumulate_def accuracy_step_def forward_def
      linear_forward_def dropout_forward_def relu_def log_softmax_def eval_mode_def
      still_torch_def small_model_def one_batch_def Let_def numeral_2_eq_2)

lemma equals_mixed:
  "equals (replicate (n + k) row) (replicate n l @ replicate k l') =
     replicate n (argmax row = l) @ replicate k (argmax row = l')"
proof -
  have "zip (replicate (n + k) row) (replicate n l @ replicate k l') =
        zip (replicate n row @ replicate k row) (replicate n l @ replicate k l')"
    by (simp add: replicate_add)
  also have "\<dots> = replicate n (row, l) @ replicate k (row, l')"
    by (simp add: zip_replicate)
  finally show ?thesis by (simp add: equals_def)
qed

lemma correct_mixed:
  "correct (replicate (n + k) row, replicate n l @ replicate k l') =
     (if argmax row = l then n else 0) + (if argmax row = l' then k else 0)"
  by (simp add: correct_def equals_mixed)

lemma batch_size_mixed:
  "batch_size (replicate (n + k) row, replicate n l @ replicate k l') = n + k"
  by (simp add: batch_size_def equals_mixed)

lemma argmax_third [simp]: "argmax [0, 0, 1] = 2"
  by (simp add: argmax_def)

lemma seven_in_eight_batches:
  "correct (replicate 64 [0, 0, 1], replicate 56 2 @ replicate 8 0) = 56"
  "batch_size (replicate 64 [0, 0, 1], replicate 56 2 @ replicate 8 0) = 64"
  "correct (replicate 16 [0, 0, 1], replicate 14 2 @ replicate 2 0) = 14"
  "batch_size (replicate 16 [0, 0, 1], replicate 14 2 @ replicate 2 0) = 16"
  using correct_mixed [of 56 8 "[0, 0, 1]" 2 0] batch_size_mixed [of 56 8 "[0, 0, 1]" 2 0]
    correct_mixed [of 14 2 "[0, 0, 1]" 2 0] batch_size_mixed [of 14 2 "[0, 0, 1]" 2 0]
  by simp_all

lemma sizes_seven_in_eight_right: "map batch_size seven_in_eight_right = replicate 156 64 @ [16]"
  by (simp add: seven_in_eight_right_def seven_in_eight_batches)

text \<open>
  The two figures can be equal: when seven images in eight are classified correctly in every
  batch, 56 of 64 and 14 of the last 16, both are 87.5.
\<close>

lemma seven_in_eight_reported_is_exact:
  "map batch_size seven_in_eight_right = replicate 156 64 @ [16] \<and>
   test_accuracy seven_in_eight_right = 875 / 10 \<and> share_correct seven_in_eight_right = 875 / 10"
  using reported_and_exact_accuracy [OF sizes_seven_in_eight_right] sizes_seven_in_eight_right
  by (simp add: seven_in_eight_right_def seven_in_eight_batches sum_list_replicate)

text \<open>When every image is classified correctly both figures are 100.\<close>

lemma all_right_reported_is_exact:
  "map batch_size all_right = replicate 156 64 @ [16] \<and>
   test_accuracy all_right = 100 \<and> share_correct all_right = 100"
  using reported_and_exact_accuracy [OF sizes_all_right] sizes_all_right
  by (simp add: all_right_def correct_replicate sum_list_replicate)

section \<open>Runs of the cells on a small model\<close>

lemmas forward_defs = forward_def linear_forward_def dropout_forward_def relu_def log_softmax_def
  eval_mode_def
lemmas cell_defs = part5_loop_def part5_epoch_def train_batch_def validate_batch_def
  part4_loop_def part4_epoch_def part4_batch_def learn_batch_def call_model_def criterion_def
  nll_loss_def backward_def optimizer_step_def zero_grad_def model_train_def model_eval_def
  new_session_def select_device_def accumulate_def accuracy_step_def

lemma part5_small_run:
  "\<exists>s. part5_loop (still_torch True) small_model () 2 one_batch one_batch = Inr s"
  by (simp add: cell_defs forward_defs still_torch_def small_model_def one_batch_def Let_def
      numeral_2_eq_2)

lemma part4_small_run:
  "\<exists>s. part4_loop (still_torch True) small_model () 2 one_batch = Inr s"
  by (simp add: cell_defs forward_defs still_torch_def small_model_def one_batch_def Let_def
      numeral_2_eq_2)

text \<open>
  One epoch of Part 5 on the small model, with one training batch and one test batch of
  one image each: the line it prints has the epoch, the number of epochs, the training loss,
  the test loss and the test accuracy.
\<close>

lemma small_run_printed:
  "printed (session_after (part5_loop (still_torch True) small_model () 1 one_batch one_batch))
     = [[1, 1, format_3f (ln (exp 2 + 1) - 2), format_3f (ln (exp 1 + 1) - 1), 100]]"
  by (simp add: cell_defs forward_defs still_torch_def small_model_def one_batch_def Let_def
      numeral_2_eq_2 session_after_def argmax_def equals_def mean_float_def)

section \<open>The five steps of a mini-batch\<close>

text \<open>
  What the loop body does to a session, in terms of the library alone: whether it returns,
  and the session it returns.
\<close>


lemma zero_grad_zeros:
  "zero_grad s = s\<lparr>grads := map_option zeros (grads s), calls := calls s @ [ZeroGrad]\<rparr>"
  by (simp add: zero_grad_def zeros_def [abs_def] map_replicate_const)

lemma learn_batch_steps:
  assumes keep: "keep = dropout_noise T (Suc (length (calls s)))"
    and g: "g = accumulate (map_option zeros (grads s)) (autograd T (model s) keep (fst b) (snd b))"
  shows "(learn_batch T s b = Inr (loss, s')) =
         ((\<exists>log_ps. forward_rows (model s) keep 0 (fst b) = Inr log_ps \<and>
                     nll_loss log_ps (snd b) = Inr loss) \<and>
          s' = s\<lparr>grads := Some g,
                 model := snd (opt_update T (optimizer s) (model s) (Some g)),
                 optimizer := fst (opt_update T (optimizer s) (model s) (Some g)),
                 calls := calls s @ [ZeroGrad, Forward, Criterion, Backward, OptStep]\<rparr>)"
  unfolding keep g
  by (auto simp: learn_batch_def call_model_def criterion_def zero_grad_zeros backward_def
      optimizer_step_def Let_def split: sum.splits)

lemma zip_zeros:
  "length d = n \<Longrightarrow> map (\<lambda>vd. fst vd + snd vd) (zip (replicate n (0::real)) d) = d"
proof (induction d arbitrary: n)
  case Nil
  then show ?case by simp
next
  case (Cons x d)
  then obtain k where "n = Suc k" by (cases n) auto
  then show ?case using Cons by simp
qed

lemma accumulate_zeros:
  "layout old = layout new \<Longrightarrow> accumulate (Some (zeros old)) new = new"
proof (induction old arbitrary: new)
  case Nil
  then show ?case by (simp add: accumulate_def zeros_def layout_def)
next
  case (Cons kt old)
  then obtain kt' new' where n: "new = kt' # new'"
    by (cases new) (auto simp: layout_def)
  have rest: "layout old = layout new'" and k: "fst kt = fst kt'"
    and sh: "shape (snd kt) = shape (snd kt')"
    and len: "length (data (snd kt)) = length (data (snd kt'))"
    using Cons.prems n by (simp_all add: layout_def)
  have "accumulate (Some (zeros old)) new' = new'"
    using Cons.IH [OF rest] .
  then have tl: "map (\<lambda>kt. (fst (fst kt),
                              (snd (fst kt))\<lparr>data := map (\<lambda>vd. fst vd + snd vd)
                                                       (zip (data (snd (fst kt))) (data (snd (snd kt))))\<rparr>))
                    (zip (zeros old) new') = new'"
    by (simp add: accumulate_def)
  have hd: "(snd kt)\<lparr>data := map (\<lambda>vd. fst vd + snd vd)
              (zip (replicate (length (data (snd kt))) 0) (data (snd kt')))\<rparr> = snd kt'"
    using sh zip_zeros [of "data (snd kt')" "length (data (snd kt))"] len by simp
  show ?case
    using tl hd k unfolding n
    by (simp add: accumulate_def zeros_def prod_eq_iff)
qed

lemma fresh_gradient:
  assumes "grads s = None \<or> map_option layout (grads s) = Some (layout new)"
  shows "accumulate (map_option zeros (grads s)) new = new"
proof (cases "grads s")
  case None
  then show ?thesis by (simp add: accumulate_def)
next
  case (Some old)
  then have "layout old = layout new" using assms by simp
  then show ?thesis using Some accumulate_zeros by simp
qed

text \<open>
  The loops in terms of the loop body: the running loss, the lists of losses, the printed
  lines and the validation pass have no part in what the model is trained to.
\<close>


lemma learn_batch_alike:
  assumes alike: "trained_alike s r" and run: "learn_batch T s b = Inr (loss, s')"
  shows "\<exists>r'. learn_batch T r b = Inr (loss, r') \<and> trained_alike s' r'"
proof -
  let ?keep = "dropout_noise T (Suc (length (calls s)))"
  let ?g = "accumulate (map_option zeros (grads s)) (autograd T (model s) ?keep (fst b) (snd b))"
  let ?r' = "r\<lparr>grads := Some ?g,
                model := snd (opt_update T (optimizer s) (model s) (Some ?g)),
                optimizer := fst (opt_update T (optimizer s) (model s) (Some ?g)),
                calls := calls s @ [ZeroGrad, Forward, Criterion, Backward, OptStep]\<rparr>"
  from run have fw: "\<exists>log_ps. forward_rows (model s) ?keep 0 (fst b) = Inr log_ps \<and>
      nll_loss log_ps (snd b) = Inr loss"
    and s': "s' = s\<lparr>grads := Some ?g,
                 model := snd (opt_update T (optimizer s) (model s) (Some ?g)),
                 optimizer := fst (opt_update T (optimizer s) (model s) (Some ?g)),
                 calls := calls s @ [ZeroGrad, Forward, Criterion, Backward, OptStep]\<rparr>"
    using learn_batch_steps [OF refl refl, of T s b loss s'] by simp_all
  have same: "model r = model s" "grads r = grads s" "optimizer r = optimizer s"
    "calls r = calls s"
    using alike by (simp_all add: trained_alike_def)
  have "learn_batch T r b = Inr (loss, ?r')"
    using learn_batch_steps [OF refl refl, of T r b loss ?r'] fw by (simp add: same)
  moreover have "trained_alike s' ?r'"
    unfolding s' by (simp add: trained_alike_def)
  ultimately show ?thesis by blast
qed

lemma for_each_simulation:
  assumes step: "\<And>a c b a'. R a c \<Longrightarrow> body a b = Inr a' \<Longrightarrow> \<exists>c'. body' c b = Inr c' \<and> R a' c'"
    and start: "R a c" and run: "for_each body a bs = Inr a'"
  shows "\<exists>c'. for_each body' c bs = Inr c' \<and> R a' c'"
  using start run
proof (induction bs arbitrary: a c)
  case Nil
  then show ?case by simp
next
  case (Cons b bs)
  from Cons.prems(2) obtain a1 where one: "body a b = Inr a1"
    and rest: "for_each body a1 bs = Inr a'"
    by (auto split: sum.splits)
  from step [OF Cons.prems(1) one] obtain c1 where c1: "body' c b = Inr c1" and r1: "R a1 c1"
    by blast
  from Cons.IH [OF r1 rest] obtain c' where "for_each body' c1 bs = Inr c'" "R a' c'"
    by blast
  then show ?case using c1 by auto
qed

lemma for_each_append:
  "for_each body s (xs @ ys) =
     (case for_each body s xs of Inl e \<Rightarrow> Inl e | Inr s' \<Rightarrow> for_each body s' ys)"
  by (induction xs arbitrary: s) (simp_all split: sum.splits)

lemma for_each_concat:
  "for_each (\<lambda>s x. for_each body s (f x)) s xs = for_each body s (concat (map f xs))"
  by (induction xs arbitrary: s) (simp_all add: for_each_append split: sum.splits)

lemma train_batches_alike:
  assumes alike: "trained_alike s r"
    and run: "for_each (part4_batch T) (s, l) bs = Inr (s', l')"
  shows "\<exists>r'. learn_batches T r bs = Inr r' \<and> trained_alike s' r'"
proof -
  have "\<exists>r'. for_each (\<lambda>s b. case learn_batch T s b of Inl e \<Rightarrow> Inl e | Inr ls \<Rightarrow> Inr (snd ls))
               r bs = Inr r' \<and> trained_alike (fst (s', l')) r'"
  proof (rule for_each_simulation [where R = "\<lambda>a c. trained_alike (fst a) c"
        and body = "part4_batch T" and a = "(s, l)"])
    fix a :: "'a session \<times> real" and c b a'
    assume R: "trained_alike (fst a) c" and one: "part4_batch T a b = Inr a'"
    from one obtain loss where "learn_batch T (fst a) b = Inr (loss, fst a')"
      by (auto simp: part4_batch_def split: sum.splits)
    from learn_batch_alike [OF R this]
    show "\<exists>c'. (case learn_batch T c b of Inl e \<Rightarrow> Inl e | Inr ls \<Rightarrow> Inr (snd ls)) = Inr c' \<and>
               trained_alike (fst a') c'"
      by auto
  next
    show "trained_alike (fst (s, l)) r" using alike by simp
  next
    show "for_each (part4_batch T) (s, l) bs = Inr (s', l')" by (rule run)
  qed
  then show ?thesis by (simp add: learn_batches_def)
qed

lemma cuda_train_batches_alike:
  assumes alike: "trained_alike s r"
    and run: "for_each (train_batch T) (s, l) bs = Inr (s', l')"
  shows "\<exists>r'. learn_batches T r bs = Inr r' \<and> trained_alike s' r'"
proof -
  have "\<exists>r'. for_each (\<lambda>s b. case learn_batch T s b of Inl e \<Rightarrow> Inl e | Inr ls \<Rightarrow> Inr (snd ls))
               r bs = Inr r' \<and> trained_alike (fst (s', l')) r'"
  proof (rule for_each_simulation [where R = "\<lambda>a c. trained_alike (fst a) c"
        and body = "train_batch T" and a = "(s, l)"])
    fix a :: "'a session \<times> real" and c b a'
    assume R: "trained_alike (fst a) c" and one: "train_batch T a b = Inr a'"
    from one obtain loss where "learn_batch T (fst a) b = Inr (loss, fst a')"
      by (auto simp: train_batch_def split: sum.splits if_splits)
    from learn_batch_alike [OF R this]
    show "\<exists>c'. (case learn_batch T c b of Inl e \<Rightarrow> Inl e | Inr ls \<Rightarrow> Inr (snd ls)) = Inr c' \<and>
               trained_alike (fst a') c'"
      by auto
  next
    show "trained_alike (fst (s, l)) r" using alike by simp
  next
    show "for_each (train_batch T) (s, l) bs = Inr (s', l')" by (rule run)
  qed
  then show ?thesis by (simp add: learn_batches_def)
qed

lemma part4_epoch_alike:
  assumes alike: "trained_alike s r" and run: "part4_epoch T trainloader s e = Inr s'"
  shows "\<exists>r'. learn_batches T r (trainloader e) = Inr r' \<and> trained_alike s' r'"
proof -
  from run obtain s1 l where
    inner: "for_each (part4_batch T) (s, 0) (trainloader e) = Inr (s1, l)" and
    s': "s' = s1\<lparr>printed := printed s1 @ [[l / real (length (trainloader e))]]\<rparr>"
    by (auto simp: part4_epoch_def split: sum.splits if_splits)
  from train_batches_alike [OF alike inner] obtain r' where
    "learn_batches T r (trainloader e) = Inr r'" "trained_alike s1 r'"
    by blast
  then show ?thesis unfolding s' by (auto simp: trained_alike_def)
qed

lemma part4_loop_alike:
  assumes run: "part4_loop T model0 opt0 epochs trainloader = Inr s4"
  shows "\<exists>r. learn_batches T (new_session model0 Cpu opt0)
               (concat (map trainloader [0..<epochs])) = Inr r \<and> trained_alike s4 r"
proof -
  have "\<exists>r. for_each (\<lambda>s e. for_each
                (\<lambda>s b. case learn_batch T s b of Inl e \<Rightarrow> Inl e | Inr ls \<Rightarrow> Inr (snd ls))
                s (trainloader e))
             (new_session model0 Cpu opt0) [0..<epochs] = Inr r \<and> trained_alike s4 r"
  proof (rule for_each_simulation [where R = trained_alike
        and body = "part4_epoch T trainloader" and a = "new_session model0 Cpu opt0"])
    fix a c :: "'a session" and e a'
    assume "trained_alike a c" and "part4_epoch T trainloader a e = Inr a'"
    from part4_epoch_alike [OF this]
    show "\<exists>c'. for_each (\<lambda>s b. case learn_batch T s b of Inl e \<Rightarrow> Inl e | Inr ls \<Rightarrow> Inr (snd ls))
                 c (trainloader e) = Inr c' \<and> trained_alike a' c'"
      by (simp add: learn_batches_def)
  next
    show "trained_alike (new_session model0 Cpu opt0) (new_session model0 Cpu opt0)"
      by (simp add: trained_alike_def)
  next
    show "for_each (part4_epoch T trainloader) (new_session model0 Cpu opt0) [0..<epochs] = Inr s4"
      using run by (simp add: part4_loop_def)
  qed
  then show ?thesis
    by (simp add: learn_batches_def for_each_concat)
qed

lemma validate_batches_calls:
  assumes "for_each (validate_batch T) (s, l, a) bs = Inr (s', l', a')"
  shows "s' = s\<lparr>calls := calls s @ concat (map (\<lambda>b. [Forward, Criterion]) bs)\<rparr>"
  using assms
proof (induction bs arbitrary: s l a)
  case Nil
  then show ?case by simp
next
  case (Cons b bs)
  from Cons.prems obtain s1 l1 a1 where
    step: "validate_batch T (s, l, a) b = Inr (s1, l1, a1)" and
    rest: "for_each (validate_batch T) (s1, l1, a1) bs = Inr (s', l', a')"
    by (auto split: sum.splits)
  from step obtain out s2 loss where
    f: "call_model T s (fst b) = Inr (out, s2)" and
    c: "criterion s2 out (snd b) = Inr (loss, s1)"
    by (auto simp: validate_batch_def split: sum.splits if_splits)
  have "s1 = s\<lparr>calls := calls s @ [Forward, Criterion]\<rparr>"
    using call_model_calls [OF f] criterion_calls [OF c] by simp
  then show ?case using Cons.IH [OF rest] by simp
qed

lemma model_train_alike: "trained_alike s r \<Longrightarrow> trained_alike (model_train s) (model_train r)"
  by (simp add: trained_alike_def model_train_def)

lemma part5_epoch_alike:
  assumes alike: "trained_alike s r"
    and run: "part5_epoch T epochs trainloader testloader s e = Inr s'"
  shows "\<exists>r'. part5_epoch_training T trainloader testloader r e = Inr r' \<and> trained_alike s' r'"
proof -
  from run obtain s1 rl s2 tl acc where
    train: "for_each (train_batch T) (model_train s, 0) (trainloader e) = Inr (s1, rl)" and
    val: "for_each (validate_batch T) (model_eval s1, 0, 0) (testloader e) = Inr (s2, tl, acc)" and
    s': "model s' = model s2" "grads s' = grads s2" "optimizer s' = optimizer s2"
      "calls s' = calls s2"
    by (auto simp: part5_epoch_def Let_def split: sum.splits if_splits)
  from cuda_train_batches_alike [OF model_train_alike [OF alike] train] obtain r1 where
    r1: "learn_batches T (model_train r) (trainloader e) = Inr r1" and a1: "trained_alike s1 r1"
    by blast
  have s2: "s2 = (model_eval s1)\<lparr>calls := calls (model_eval s1)
      @ concat (map (\<lambda>b. [Forward, Criterion]) (testloader e))\<rparr>"
    using validate_batches_calls [OF val] .
  show ?thesis
    using r1 a1 s' unfolding s2
    by (simp add: part5_epoch_training_def trained_alike_def model_eval_def)
qed

lemma part5_loop_alike:
  assumes run: "part5_loop T model0 opt0 epochs trainloader testloader = Inr s5"
  shows "\<exists>r. for_each (part5_epoch_training T trainloader testloader)
               (new_session model0 (select_device T) opt0) [0..<epochs] = Inr r \<and>
             trained_alike s5 r"
proof (rule for_each_simulation [where R = trained_alike
      and body = "part5_epoch T epochs trainloader testloader"
      and a = "new_session model0 (select_device T) opt0"])
  fix a c :: "'a session" and e a'
  assume "trained_alike a c" and "part5_epoch T epochs trainloader testloader a e = Inr a'"
  from part5_epoch_alike [OF this]
  show "\<exists>c'. part5_epoch_training T trainloader testloader c e = Inr c' \<and> trained_alike a' c'" .
next
  show "trained_alike (new_session model0 (select_device T) opt0)
          (new_session model0 (select_device T) opt0)"
    by (simp add: trained_alike_def)
next
  show "for_each (part5_epoch T epochs trainloader testloader)
          (new_session model0 (select_device T) opt0) [0..<epochs] = Inr s5"
    using run by (simp add: part5_loop_def)
qed

text \<open>Steps on the small model, with the library that subtracts unit gradients.\<close>


lemma small_gradient:
  "autograd sgd_torch small_model keep images labels = unit_gradient"
  by (simp add: sgd_torch_def small_model_def unit_gradient_def state_dict_def
      linear_params_def)

lemma small_step:
  "opt_update sgd_torch 0 small_model (Some unit_gradient) = (1, small_model_stepped)"
  by (simp add: sgd_torch_def small_model_def unit_gradient_def state_dict_def
      linear_params_def loaded_def load_linear_def copy_param_def small_model_stepped_def)

lemma small_forward:
  "forward_rows small_model (dropout_noise sgd_torch n) 0 [[1]]
     = Inr [[2 - ln (exp 2 + 1), - ln (exp 2 + 1)]]"
  by (simp add: forward_defs sgd_torch_def small_model_def numeral_2_eq_2)

lemma small_loss:
  "nll_loss [[2 - ln (exp 2 + 1), - ln (exp 2 + 1)]] [0] = Inr (ln (exp 2 + 1) - 2)"
  by (simp add: nll_loss_def)

lemma part4_sgd_run:
  "\<exists>s. part4_loop sgd_torch small_model 0 2 one_batch = Inr s"
  by (simp add: cell_defs forward_defs sgd_torch_def small_model_def one_batch_def Let_def
      numeral_2_eq_2 state_dict_def linear_params_def loaded_def load_linear_def copy_param_def)

lemma part5_sgd_run:
  "\<exists>s. part5_loop sgd_torch small_model 0 2 one_batch one_batch = Inr s"
  by (simp add: cell_defs forward_defs sgd_torch_def small_model_def one_batch_def Let_def
      numeral_2_eq_2 state_dict_def linear_params_def loaded_def load_linear_def copy_param_def)

lemma part4_sgd_steps:
  "optimizer (session_after (part4_loop sgd_torch small_model 0 2 one_batch)) = 2"
  by (simp add: cell_defs forward_defs sgd_torch_def small_model_def one_batch_def Let_def
      numeral_2_eq_2 state_dict_def linear_params_def loaded_def load_linear_def copy_param_def
      session_after_def)

section \<open>The claims about checkpoints\<close>

text \<open>
  Claim C1, as amended. A state dict saved from a model with hidden widths \<open>H\<close> is loaded
  into a model built anew with hidden widths \<open>H'\<close> and the same input and output sizes.
  Loading succeeds, and gives back the saved model, exactly when \<open>H' = H\<close>. When
  \<open>H' \<noteq> H\<close> it raises: the report has a size mismatch when the two lists have the same
  length, a missing key when \<open>H'\<close> is longer and an unexpected key when \<open>H'\<close> is shorter.
  So a failure is not always a shape mismatch.
\<close>

theorem rebuild_and_load_widths:
  assumes m: "Network a b H init = Inr m" and ne: "H' \<noteq> []"
  shows "(H' = H \<longrightarrow> rebuild_and_load a b H' init' (state_dict m) = Inr m) \<and>
         (H' \<noteq> H \<longrightarrow>
            (\<exists>r. rebuild_and_load a b H' init' (state_dict m) = Inl (LoadError r) \<and>
                 (length H' = length H \<longrightarrow> size_mismatch r \<noteq> []) \<and>
                 (length H < length H' \<longrightarrow> missing_keys r \<noteq> []) \<and>
                 (length H' < length H \<longrightarrow> unexpected_keys r \<noteq> [])))"
proof -
  obtain m' where m': "Network a b H' init' = Inr m'"
    using ne by (cases H') (simp_all add: Network_def)
  let ?r = "load_errors m' (state_dict m)"
  have run: "rebuild_and_load a b H' init' (state_dict m) = load_state_dict m' (state_dict m)"
    by (simp add: rebuild_and_load_def m')
  have one: "H' \<noteq> H \<Longrightarrow> length H' = length H \<Longrightarrow> size_mismatch ?r \<noteq> []"
    by (rule mismatch_equal_length [OF m m'])
  have two: "length H < length H' \<Longrightarrow> missing_keys ?r \<noteq> []"
    by (rule missing_longer [OF m m'])
  have three: "length H' < length H \<Longrightarrow> unexpected_keys ?r \<noteq> []"
    by (rule unexpected_shorter [OF m m'])
  have fails: "load_state_dict m' (state_dict m) = Inl (LoadError ?r)" if "H' \<noteq> H"
  proof (rule load_state_dict_fails)
    consider "length H' = length H" | "length H < length H'" | "length H' < length H"
      by linarith
    then show "size_mismatch ?r \<noteq> [] \<or> missing_keys ?r \<noteq> [] \<or> unexpected_keys ?r \<noteq> []"
      using one two three that by cases blast+
  qed
  have same: "load_state_dict m' (state_dict m) = Inr m" if "H' = H"
    using load_state_dict_same_widths [OF m] m' that by simp
  show ?thesis
    unfolding run using fails same one two three by blast
qed

theorem rebuild_and_load_widths_witness:
  "Network 784 10 [512, 256, 128] (\<lambda>k i. 0) = Inr first_model \<and>
   [400, 200, 100] \<noteq> ([] :: nat list) \<and>
   (\<exists>r. rebuild_and_load 784 10 [400, 200, 100] (\<lambda>k i. 1) (state_dict first_model)
          = Inl (LoadError r) \<and> size_mismatch r \<noteq> [])"
proof -
  have n: "[400, 200, 100] \<noteq> ([] :: nat list)" by simp
  show ?thesis
    using rebuild_and_load_widths [OF Network_first_model n, of "\<lambda>k i. 1"] Network_first_model
    by simp
qed

text \<open>
  The claim as it was written says that every load into a model of other widths fails with
  a shape-mismatch error. A model with one more hidden layer of the last width has no
  parameter of another shape than the stored one: the load fails on the keys
  \<^verbatim>\<open>hidden_layers.3.weight\<close> and \<^verbatim>\<open>hidden_layers.3.bias\<close>, which are missing,
  and reports no size mismatch.
\<close>

theorem missing_keys_without_size_mismatch:
  "(case Network 784 10 [512, 256, 128] (\<lambda>k i. 0) of
      Inl e \<Rightarrow> Inl e
    | Inr m \<Rightarrow> rebuild_and_load 784 10 [512, 256, 128, 128] (\<lambda>k i. 1) (state_dict m))
   = Inl (LoadError (LoadReport [] [Hidden 3 Weight, Hidden 3 Bias] []))"
  by (simp add: Network_def Linear_def state_dict_def linear_params_def rebuild_and_load_def
      load_state_dict_def load_errors_def mismatched_def absent_def load_linear_def copy_param_def)

text \<open>
  The other way round, a model with one hidden layer less than the stored state dict has no
  parameter of another shape either: the load fails on the two keys it does not expect.
\<close>

lemma unexpected_keys_without_size_mismatch:
  "(case Network 784 10 [512, 256, 128, 128] (\<lambda>k i. 0) of
      Inl e \<Rightarrow> Inl e
    | Inr m \<Rightarrow> rebuild_and_load 784 10 [512, 256, 128] (\<lambda>k i. 1) (state_dict m))
   = Inl (LoadError (LoadReport [] [] [Hidden 3 Weight, Hidden 3 Bias]))"
  by (simp add: Network_def Linear_def state_dict_def linear_params_def rebuild_and_load_def
      load_state_dict_def load_errors_def mismatched_def absent_def load_linear_def copy_param_def)

text \<open>
  The widths of the notebook give the report the notebook shows: seven size mismatches,
  from \<^verbatim>\<open>hidden_layers.0.weight\<close> to \<^verbatim>\<open>output.weight\<close>, and
  \<^verbatim>\<open>output.bias\<close> is not among them.
\<close>

lemma notebook_error_message:
  "(case Network 784 10 [512, 256, 128] (\<lambda>k i. 0) of
      Inl e \<Rightarrow> Inl e
    | Inr m \<Rightarrow> rebuild_and_load 784 10 [400, 200, 100] (\<lambda>k i. 1) (state_dict m))
   = Inl (LoadError (LoadReport [Hidden 0 Weight, Hidden 0 Bias, Hidden 1 Weight, Hidden 1 Bias,
        Hidden 2 Weight, Hidden 2 Bias, Output Weight] [] []))"
  by (simp add: Network_def Linear_def state_dict_def linear_params_def rebuild_and_load_def
      load_state_dict_def load_errors_def mismatched_def absent_def load_linear_def copy_param_def)

text \<open>
  The same holds for \<open>load_checkpoint\<close> on a checkpoint whose widths are not those of the
  model its state dict came from: it is this cell on the fields of the checkpoint
  (lemma \<open>load_checkpoint_is_rebuild_and_load\<close>).
\<close>

text \<open>
  Claim C2. A model with hidden widths \<open>H\<close> (input size 784 and output size 10, the sizes
  the checkpoint cell writes, and any parameter values: \<open>init\<close> ranges over all of them),
  left in any mode, is saved as a checkpoint and loaded with \<open>load_checkpoint\<close>, whatever
  the new random draw \<open>init'\<close> and whatever else the file system holds. The loaded model has
  the same state dict and predicts the same output on every input. Predictions are made as
  the notebook makes them, in evaluation mode; in training mode the two models give the same
  output for the same dropout draw.
\<close>

theorem checkpoint_round_trip:
  assumes m0: "Network 784 10 H init = Inr m0" and trained: "trained = m0\<lparr>training := mode\<rparr>"
  shows "\<exists>restored.
           load_checkpoint (torch_save (SavedCheckpoint (make_checkpoint trained)) filepath fs)
             init' filepath = Inr restored \<and>
           state_dict restored = state_dict trained \<and>
           (\<forall>img. predict restored img = predict trained img) \<and>
           (\<forall>keep img. forward restored keep img = forward (trained\<lparr>training := True\<rparr>) keep img)"
proof -
  note M = Network_Inr [OF m0]
  have ck: "make_checkpoint trained =
      \<lparr>ck_input_size = 784, ck_output_size = 10, ck_hidden_layers = H, ck_state_dict = state_dict m0\<rparr>"
    using M by (simp add: make_checkpoint_def trained out_features_hidden_from state_dict_def)
  obtain fresh where fresh: "Network 784 10 H init' = Inr fresh"
    using M by (cases H) (simp_all add: Network_def)
  have "load_state_dict fresh (state_dict m0) = Inr m0"
    by (rule load_state_dict_same_widths [OF m0 fresh])
  then have "load_checkpoint (torch_save (SavedCheckpoint (make_checkpoint trained)) filepath fs)
               init' filepath = Inr m0"
    by (simp add: load_checkpoint_def torch_load_def torch_save_def ck fresh)
  moreover have "state_dict m0 = state_dict trained"
    by (simp add: trained state_dict_def)
  moreover have "predict m0 img = predict trained img" for img
    by (simp add: predict_def eval_mode_def trained)
  moreover have "forward m0 keep img = forward (trained\<lparr>training := True\<rparr>) keep img" for keep img
  proof -
    have "m0\<lparr>training := training m0\<rparr> = m0" by simp
    then have "trained\<lparr>training := True\<rparr> = m0" using M by (simp add: trained)
    then show ?thesis by simp
  qed
  ultimately show ?thesis by blast
qed

theorem checkpoint_round_trip_witness:
  "Network 784 10 [400, 200, 100] (\<lambda>k i. 0) = Inr second_model \<and>
   (\<exists>restored.
      load_checkpoint
        (torch_save (SavedCheckpoint (make_checkpoint (second_model\<lparr>training := False\<rparr>)))
           ''checkpoint.pth'' Map.empty)
        (\<lambda>k i. 1) ''checkpoint.pth'' = Inr restored \<and>
      state_dict restored = state_dict (second_model\<lparr>training := False\<rparr>) \<and>
      (\<forall>img. predict restored img = predict (second_model\<lparr>training := False\<rparr>) img) \<and>
      (\<forall>keep img. forward restored keep img =
         forward (second_model\<lparr>training := False, training := True\<rparr>) keep img))"
  using checkpoint_round_trip [OF Network_second_model, of "second_model\<lparr>training := False\<rparr>"
      False "''checkpoint.pth''" Map.empty "\<lambda>k i. 1"] Network_second_model
  by blast

text \<open>
  Claim C3. When \<open>load_checkpoint\<close> returns a model, the file held a checkpoint record (its
  four fields are the input size, the output size, the hidden widths and the state dict);
  a new model was built from the three sizes with a random draw, and the stored state dict
  was loaded into it. The returned model has the keys of the new model, every one of its
  parameters is the stored tensor, and nothing of the random draw is left: any other draw
  gives the same model.
\<close>

theorem load_checkpoint_rebuilds_then_overwrites:
  assumes "load_checkpoint fs init filepath = Inr m"
  shows "\<exists>ck fresh. fs filepath = Some (SavedCheckpoint ck) \<and>
           Network (ck_input_size ck) (ck_output_size ck) (ck_hidden_layers ck) init = Inr fresh \<and>
           load_state_dict fresh (ck_state_dict ck) = Inr m \<and>
           map fst (state_dict m) = map fst (state_dict fresh) \<and>
           map_of (state_dict m) = map_of (ck_state_dict ck) \<and>
           load_checkpoint fs init' filepath = Inr m"
proof -
  from assms obtain ck fresh where
    stored: "fs filepath = Some (SavedCheckpoint ck)" and
    fresh: "Network (ck_input_size ck) (ck_output_size ck) (ck_hidden_layers ck) init = Inr fresh" and
    load: "load_state_dict fresh (ck_state_dict ck) = Inr m"
    by (auto simp: load_checkpoint_def torch_load_def split: option.splits pickled.splits sum.splits)
  from fresh have "ck_hidden_layers ck \<noteq> []"
    by (auto simp: Network_def)
  then obtain fresh' where
    fresh': "Network (ck_input_size ck) (ck_output_size ck) (ck_hidden_layers ck) init' = Inr fresh'"
    by (cases "ck_hidden_layers ck") (simp_all add: Network_def)
  have "load_state_dict fresh' (ck_state_dict ck) = Inr m"
    by (rule load_state_dict_fresh [OF fresh fresh' load])
  then have again: "load_checkpoint fs init' filepath = Inr m"
    by (simp add: load_checkpoint_def torch_load_def stored fresh')
  show ?thesis
    using stored fresh load load_state_dict_keys [OF load] load_state_dict_values [OF load] again
    by blast
qed

theorem load_checkpoint_rebuilds_then_overwrites_witness:
  "load_checkpoint [''checkpoint.pth'' \<mapsto> SavedCheckpoint small_checkpoint] (\<lambda>k i. 7)
     ''checkpoint.pth'' = Inr small_model \<and>
   (\<exists>ck fresh.
      [''checkpoint.pth'' \<mapsto> SavedCheckpoint small_checkpoint] ''checkpoint.pth''
        = Some (SavedCheckpoint ck) \<and>
      Network (ck_input_size ck) (ck_output_size ck) (ck_hidden_layers ck) (\<lambda>k i. 7) = Inr fresh \<and>
      load_state_dict fresh (ck_state_dict ck) = Inr small_model \<and>
      map fst (state_dict small_model) = map fst (state_dict fresh) \<and>
      map_of (state_dict small_model) = map_of (ck_state_dict ck) \<and>
      load_checkpoint [''checkpoint.pth'' \<mapsto> SavedCheckpoint small_checkpoint] (\<lambda>k i. 9)
        ''checkpoint.pth'' = Inr small_model)"
  using load_checkpoint_rebuilds_then_overwrites [OF load_small_checkpoint [of "\<lambda>k i. 7"],
      of "\<lambda>k i. 9"] load_small_checkpoint [of "\<lambda>k i. 7"]
  by simp

text \<open>
  Claim C6. The model \<open>load_checkpoint\<close> returns is in training mode and has dropout with
  probability one half. In evaluation mode its output does not depend on the dropout draw.
  In training mode it can: there is a loaded model, an input and two draws with different
  outputs.
\<close>

theorem loaded_model_in_training_mode:
  assumes "load_checkpoint fs init filepath = Inr m"
  shows "training m \<and> dropout m = Some (1 / 2) \<and>
         (\<forall>keep keep' x. forward (eval_mode m) keep x = forward (eval_mode m) keep' x) \<and>
         (\<exists>fs' init' filepath' m' keep keep' x.
            load_checkpoint fs' init' filepath' = Inr m' \<and> forward m' keep x \<noteq> forward m' keep' x)"
proof -
  from assms obtain ck fresh where
    stored: "fs filepath = Some (SavedCheckpoint ck)" and
    fresh: "Network (ck_input_size ck) (ck_output_size ck) (ck_hidden_layers ck) init = Inr fresh" and
    load: "load_state_dict fresh (ck_state_dict ck) = Inr m"
    by (auto simp: load_checkpoint_def torch_load_def split: option.splits pickled.splits sum.splits)
  have "m = loaded fresh (ck_state_dict ck)"
    by (rule load_state_dict_Inr(1) [OF load])
  then have mode: "training m \<and> dropout m = Some (1 / 2)"
    using Network_Inr [OF fresh] by (simp add: loaded_def)
  have "\<exists>fs' init' filepath' m' keep keep' x.
          load_checkpoint fs' init' filepath' = Inr m' \<and> forward m' keep x \<noteq> forward m' keep' x"
    using load_small_checkpoint small_outputs_differ by blast
  then show ?thesis
    using mode forward_eval_mode by blast
qed

theorem loaded_model_in_training_mode_witness:
  "load_checkpoint [''checkpoint.pth'' \<mapsto> SavedCheckpoint small_checkpoint] (\<lambda>k i. 7)
     ''checkpoint.pth'' = Inr small_model \<and>
   training small_model \<and> dropout small_model = Some (1 / 2) \<and>
   forward small_model (\<lambda>k i. True) [1] = Inr [2 - ln (exp 2 + 1), - ln (exp 2 + 1)] \<and>
   forward small_model (\<lambda>k i. False) [1] = Inr [- ln 2, - ln 2] \<and>
   forward (eval_mode small_model) (\<lambda>k i. True) [1] = forward (eval_mode small_model) (\<lambda>k i. False) [1]"
  using loaded_model_in_training_mode [OF load_small_checkpoint [of "\<lambda>k i. 7"]]
    load_small_checkpoint [of "\<lambda>k i. 7"] forward_small_keep forward_small_drop
  by simp

section \<open>The claims about training and validation\<close>

text \<open>
  Claim C4. What a training cell does for every mini-batch, and that it does so for all of
  them. The loop body returns exactly when the forward pass on the batch and the loss of
  its output return, and then it leaves: as stored gradients, the gradient that automatic
  differentiation gives for this forward pass and loss, added to the stored gradients set
  to zero (so it is this gradient alone, when the stored gradients have its keys and
  shapes or there are none yet); as model and optimizer state, what one update of the
  optimizer makes of the model before the batch with these gradients; and the five calls,
  in their order. A run of Part 4 that reaches its end leaves the model, the gradients and
  the optimizer that these steps leave when taken on every batch of every epoch in turn,
  for the given number of epochs. A run of Part 5 leaves what its epochs leave in turn,
  each setting training mode, taking the steps on every training batch and setting
  evaluation mode, the validation pass changing none of the three. The calls made on the
  model, the criterion, the loss and the optimizer are those of these steps and, in Part 5,
  of the two mode changes and of the validation pass; when an error ends a cell they are a
  first part of them, so no run takes another path.
\<close>

theorem training_loop_five_steps:
  assumes keep: "keep = dropout_noise T (Suc (length (calls s)))"
    and new: "new = autograd T (model s) keep (fst b) (snd b)"
    and g: "g = accumulate (map_option zeros (grads s)) new"
  shows
  "(learn_batch T s b = Inr (loss, s')) =
     ((\<exists>log_ps. forward_rows (model s) keep 0 (fst b) = Inr log_ps \<and>
                 nll_loss log_ps (snd b) = Inr loss) \<and>
      s' = s\<lparr>grads := Some g,
             model := snd (opt_update T (optimizer s) (model s) (Some g)),
             optimizer := fst (opt_update T (optimizer s) (model s) (Some g)),
             calls := calls s @ [ZeroGrad, Forward, Criterion, Backward, OptStep]\<rparr>) \<and>
   ((grads s = None \<or> map_option layout (grads s) = Some (layout new)) \<longrightarrow> g = new) \<and>
   (part4_loop T model0 opt0 epochs trainloader = Inr s4 \<longrightarrow>
      (\<exists>r. learn_batches T (new_session model0 Cpu opt0)
              (concat (map trainloader [0..<epochs])) = Inr r \<and>
            model s4 = model r \<and> grads s4 = grads r \<and> optimizer s4 = optimizer r \<and>
            calls s4 = calls r)) \<and>
   (part5_loop T model0 opt0 epochs trainloader testloader = Inr s5 \<longrightarrow>
      (\<exists>r. for_each (part5_epoch_training T trainloader testloader)
              (new_session model0 (select_device T) opt0) [0..<epochs] = Inr r \<and>
            model s5 = model r \<and> grads s5 = grads r \<and> optimizer s5 = optimizer r \<and>
            calls s5 = calls r)) \<and>
   prefix (calls (session_after (part5_loop T model0 opt0 epochs trainloader testloader)))
     (concat (map (\<lambda>e.
        SetTrain # concat (map (\<lambda>b. [ZeroGrad, Forward, Criterion, Backward, OptStep]) (trainloader e))
          @ SetEval # concat (map (\<lambda>b. [Forward, Criterion]) (testloader e))) [0..<epochs])) \<and>
   (part5_loop T model0 opt0 epochs trainloader testloader = Inr s5 \<longrightarrow>
      calls s5 = concat (map (\<lambda>e.
        SetTrain # concat (map (\<lambda>b. [ZeroGrad, Forward, Criterion, Backward, OptStep]) (trainloader e))
          @ SetEval # concat (map (\<lambda>b. [Forward, Criterion]) (testloader e))) [0..<epochs])) \<and>
   prefix (calls (session_after (part4_loop T model0 opt0 epochs trainloader)))
     (concat (map (\<lambda>e.
        concat (map (\<lambda>b. [ZeroGrad, Forward, Criterion, Backward, OptStep]) (trainloader e)))
        [0..<epochs])) \<and>
   (part4_loop T model0 opt0 epochs trainloader = Inr s4 \<longrightarrow>
      calls s4 = concat (map (\<lambda>e.
        concat (map (\<lambda>b. [ZeroGrad, Forward, Criterion, Backward, OptStep]) (trainloader e)))
        [0..<epochs]))"
proof -
  have batch: "(learn_batch T s b = Inr (loss, s')) =
     ((\<exists>log_ps. forward_rows (model s) keep 0 (fst b) = Inr log_ps \<and>
                 nll_loss log_ps (snd b) = Inr loss) \<and>
      s' = s\<lparr>grads := Some g,
             model := snd (opt_update T (optimizer s) (model s) (Some g)),
             optimizer := fst (opt_update T (optimizer s) (model s) (Some g)),
             calls := calls s @ [ZeroGrad, Forward, Criterion, Backward, OptStep]\<rparr>)"
    using learn_batch_steps [where T = T and s = s and b = b and keep = keep and g = g
        and loss = loss and s' = s'] keep new g
    by blast
  have alone: "(grads s = None \<or> map_option layout (grads s) = Some (layout new)) \<longrightarrow> g = new"
    using fresh_gradient [of s new] g by blast
  have flat4: "part4_loop T model0 opt0 epochs trainloader = Inr s4 \<longrightarrow>
      (\<exists>r. learn_batches T (new_session model0 Cpu opt0)
              (concat (map trainloader [0..<epochs])) = Inr r \<and>
            model s4 = model r \<and> grads s4 = grads r \<and> optimizer s4 = optimizer r \<and>
            calls s4 = calls r)"
    using part4_loop_alike [where T = T and ?model0.0 = model0 and ?opt0.0 = opt0
        and epochs = epochs and trainloader = trainloader and ?s4.0 = s4]
    unfolding trained_alike_def by blast
  have flat5: "part5_loop T model0 opt0 epochs trainloader testloader = Inr s5 \<longrightarrow>
      (\<exists>r. for_each (part5_epoch_training T trainloader testloader)
              (new_session model0 (select_device T) opt0) [0..<epochs] = Inr r \<and>
            model s5 = model r \<and> grads s5 = grads r \<and> optimizer s5 = optimizer r \<and>
            calls s5 = calls r)"
    using part5_loop_alike [where T = T and ?model0.0 = model0 and ?opt0.0 = opt0
        and epochs = epochs and trainloader = trainloader and testloader = testloader
        and ?s5.0 = s5]
    unfolding trained_alike_def by blast
  have five: "prefix (calls (session_after (part5_loop T model0 opt0 epochs trainloader testloader)))
      (concat (map (part5_epoch_calls trainloader testloader) [0..<epochs])) \<and>
    (part5_loop T model0 opt0 epochs trainloader testloader = Inr s5 \<longrightarrow>
      calls s5 = concat (map (part5_epoch_calls trainloader testloader) [0..<epochs]))"
    using part5_loop_all_calls [where T = T and ?model0.0 = model0 and ?opt0.0 = opt0
        and epochs = epochs and trainloader = trainloader and testloader = testloader]
    by (auto simp: session_after_def split: sum.splits)
  have four: "prefix (calls (session_after (part4_loop T model0 opt0 epochs trainloader)))
      (concat (map (part4_epoch_calls trainloader) [0..<epochs])) \<and>
    (part4_loop T model0 opt0 epochs trainloader = Inr s4 \<longrightarrow>
      calls s4 = concat (map (part4_epoch_calls trainloader) [0..<epochs]))"
    using part4_loop_all_calls [where T = T and ?model0.0 = model0 and ?opt0.0 = opt0
        and epochs = epochs and trainloader = trainloader]
    by (auto simp: session_after_def split: sum.splits)
  have calls: "prefix (calls (session_after (part5_loop T model0 opt0 epochs trainloader testloader)))
     (concat (map (\<lambda>e.
        SetTrain # concat (map (\<lambda>b. [ZeroGrad, Forward, Criterion, Backward, OptStep]) (trainloader e))
          @ SetEval # concat (map (\<lambda>b. [Forward, Criterion]) (testloader e))) [0..<epochs])) \<and>
   (part5_loop T model0 opt0 epochs trainloader testloader = Inr s5 \<longrightarrow>
      calls s5 = concat (map (\<lambda>e.
        SetTrain # concat (map (\<lambda>b. [ZeroGrad, Forward, Criterion, Backward, OptStep]) (trainloader e))
          @ SetEval # concat (map (\<lambda>b. [Forward, Criterion]) (testloader e))) [0..<epochs])) \<and>
   prefix (calls (session_after (part4_loop T model0 opt0 epochs trainloader)))
     (concat (map (\<lambda>e.
        concat (map (\<lambda>b. [ZeroGrad, Forward, Criterion, Backward, OptStep]) (trainloader e)))
        [0..<epochs])) \<and>
   (part4_loop T model0 opt0 epochs trainloader = Inr s4 \<longrightarrow>
      calls s4 = concat (map (\<lambda>e.
        concat (map (\<lambda>b. [ZeroGrad, Forward, Criterion, Backward, OptStep]) (trainloader e)))
        [0..<epochs]))"
    using five four
    unfolding part5_epoch_calls_def [abs_def] part4_epoch_calls_def [abs_def]
    by blast
  show ?thesis
    using batch alone flat4 flat5 calls by (intro conjI) blast+
qed

theorem training_loop_five_steps_witness:
  "learn_batch sgd_torch (new_session small_model Cpu 0) ([[1]], [0]) =
     Inr (ln (exp 2 + 1) - 2,
          \<lparr>model = small_model_stepped, model_on = Cpu, grads = Some unit_gradient,
           optimizer = 1, calls = [ZeroGrad, Forward, Criterion, Backward, OptStep],
           train_losses = [], test_losses = [], printed = []\<rparr>) \<and>
   (\<exists>s4 r. part4_loop sgd_torch small_model 0 2 one_batch = Inr s4 \<and>
      learn_batches sgd_torch (new_session small_model Cpu 0) [([[1]], [0]), ([[1]], [0])] = Inr r \<and>
      model s4 = model r \<and> grads s4 = grads r \<and> optimizer s4 = optimizer r \<and>
      optimizer s4 = 2 \<and>
      calls s4 = [ZeroGrad, Forward, Criterion, Backward, OptStep,
                  ZeroGrad, Forward, Criterion, Backward, OptStep]) \<and>
   (\<exists>s5. part5_loop sgd_torch small_model 0 2 one_batch one_batch = Inr s5 \<and>
      calls s5 = [SetTrain, ZeroGrad, Forward, Criterion, Backward, OptStep,
                  SetEval, Forward, Criterion,
                  SetTrain, ZeroGrad, Forward, Criterion, Backward, OptStep,
                  SetEval, Forward, Criterion])"
proof -
  obtain s5 where s5: "part5_loop sgd_torch small_model 0 2 one_batch one_batch = Inr s5"
    using part5_sgd_run by blast
  obtain s4 where s4: "part4_loop sgd_torch small_model 0 2 one_batch = Inr s4"
    using part4_sgd_run by blast
  let ?s = "new_session small_model Cpu (0::nat)"
  let ?s' = "\<lparr>model = small_model_stepped, model_on = Cpu, grads = Some unit_gradient,
           optimizer = 1::nat, calls = [ZeroGrad, Forward, Criterion, Backward, OptStep],
           train_losses = [], test_losses = [], printed = []\<rparr>"
  note at_small = training_loop_five_steps [where T = sgd_torch and s = ?s and b = "([[1]], [0])"
        and loss = "ln (exp 2 + 1) - 2" and s' = ?s'
        and ?model0.0 = small_model and ?opt0.0 = 0 and epochs = 2 and trainloader = one_batch
        and testloader = one_batch and ?s5.0 = s5 and ?s4.0 = s4, OF refl refl refl]
  have fw: "forward_rows (model ?s) (dropout_noise sgd_torch (Suc (length (calls ?s)))) 0
      (fst ([[1]], [0::nat])) = Inr [[2 - ln (exp 2 + 1), - ln (exp 2 + 1)]]"
    using small_forward [of "Suc 0"] by (simp add: new_session_def del: forward_rows.simps)
  have g: "accumulate (map_option zeros (grads ?s))
      (autograd sgd_torch (model ?s) (dropout_noise sgd_torch (Suc (length (calls ?s))))
         (fst ([[1]], [0::nat])) (snd ([[1::real]], [0::nat]))) = unit_gradient"
    by (simp add: new_session_def small_gradient accumulate_def)
  have s': "?s' = ?s\<lparr>grads := Some unit_gradient,
      model := snd (opt_update sgd_torch (optimizer ?s) (model ?s) (Some unit_gradient)),
      optimizer := fst (opt_update sgd_torch (optimizer ?s) (model ?s) (Some unit_gradient)),
      calls := calls ?s @ [ZeroGrad, Forward, Criterion, Backward, OptStep]\<rparr>"
    by (simp add: new_session_def small_step)
  have batches: "concat (map one_batch [0..<2]) = [([[1]], [0]), ([[1]], [0])]"
    by (simp add: one_batch_def numeral_2_eq_2)
  have one: "learn_batch sgd_torch ?s ([[1]], [0]) = Inr (ln (exp 2 + 1) - 2, ?s')"
    using at_small fw small_loss s' unfolding g by auto
  have two: "\<exists>r. learn_batches sgd_torch ?s [([[1]], [0]), ([[1]], [0])] = Inr r \<and>
      model s4 = model r \<and> grads s4 = grads r \<and> optimizer s4 = optimizer r \<and>
      optimizer s4 = 2 \<and>
      calls s4 = [ZeroGrad, Forward, Criterion, Backward, OptStep,
                  ZeroGrad, Forward, Criterion, Backward, OptStep]"
    using at_small s4 part4_sgd_steps unfolding batches
    by (auto simp: one_batch_def numeral_2_eq_2 session_after_def)
  have three: "calls s5 = [SetTrain, ZeroGrad, Forward, Criterion, Backward, OptStep,
                  SetEval, Forward, Criterion,
                  SetTrain, ZeroGrad, Forward, Criterion, Backward, OptStep,
                  SetEval, Forward, Criterion]"
    using at_small s5 by (simp add: one_batch_def numeral_2_eq_2)
  show ?thesis
    using one two three s4 s5 by blast
qed

text \<open>
  Claim C5. Every parameter of a model just built (a \<open>Network\<close>, the \<open>Classifier\<close>) is
  the draw of the initialiser for its key and shape. Zeroing the gradients, the forward pass,
  the loss and the backward pass leave the model as it is, whether they return or raise; the backward pass changes the stored
  gradients and leaves the optimizer alone; the optimizer step puts in the model what the
  update rule returns. The validation pass leaves the model as it is. So a parameter changes
  in an optimizer step only: with an update rule that keeps every parameter, a whole
  training cell of Part 5 or Part 4 ends, or raises, with the state dict it started with.
  A checkpoint holds the state dict of the model as it is.
\<close>

theorem parameters_change_only_in_optimizer_step:
  "(Network a b H init = Inr net \<longrightarrow>
      (\<forall>k t. map_of (state_dict net) k = Some t \<longrightarrow> t = new_tensor init k (shape t))) \<and>
   (\<forall>k t. map_of (state_dict (Classifier init)) k = Some t \<longrightarrow> t = new_tensor init k (shape t)) \<and>
   model (zero_grad s) = model s \<and>
   (case call_model T s images of
      Inl et \<Rightarrow> snd et = s
    | Inr os \<Rightarrow> model (snd os) = model s \<and> grads (snd os) = grads s \<and>
                optimizer (snd os) = optimizer s) \<and>
   (case criterion s log_ps labels of
      Inl et \<Rightarrow> snd et = s
    | Inr ls \<Rightarrow> model (snd ls) = model s \<and> grads (snd ls) = grads s \<and>
                optimizer (snd ls) = optimizer s) \<and>
   model (backward T n images labels s) = model s \<and>
   optimizer (backward T n images labels s) = optimizer s \<and>
   model (optimizer_step T s) = snd (opt_update T (optimizer s) (model s) (grads s)) \<and>
   (case for_each (validate_batch T) (s, test_loss, accuracy) bs of
      Inl et \<Rightarrow> model (snd et) = model s
    | Inr sta \<Rightarrow> model (fst sta) = model s) \<and>
   ((\<forall>opt m g. state_dict (snd (opt_update T opt m g)) = state_dict m) \<longrightarrow>
      state_dict (model (session_after (part5_loop T model0 opt0 epochs trainloader testloader)))
        = state_dict model0 \<and>
      state_dict (model (session_after (part4_loop T model0 opt0 epochs trainloader)))
        = state_dict model0) \<and>
   ck_state_dict (make_checkpoint m) = state_dict m"
proof -
  have nw: "Network a b H init = Inr net \<longrightarrow>
      (\<forall>k t. map_of (state_dict net) k = Some t \<longrightarrow> t = new_tensor init k (shape t))"
    using Network_parameters_drawn [of a b H init net] by blast
  have cl: "\<forall>k t. map_of (state_dict (Classifier init)) k = Some t \<longrightarrow>
      t = new_tensor init k (shape t)"
    using Classifier_parameters_drawn [of init] by blast
  have fw: "case call_model T s images of
      Inl et \<Rightarrow> snd et = s
    | Inr os \<Rightarrow> model (snd os) = model s \<and> grads (snd os) = grads s \<and>
                optimizer (snd os) = optimizer s"
    by (simp add: call_model_def split: sum.splits)
  have cr: "case criterion s log_ps labels of
      Inl et \<Rightarrow> snd et = s
    | Inr ls \<Rightarrow> model (snd ls) = model s \<and> grads (snd ls) = grads s \<and>
                optimizer (snd ls) = optimizer s"
    by (simp add: criterion_def split: sum.splits)
  have va: "case for_each (validate_batch T) (s, test_loss, accuracy) bs of
      Inl et \<Rightarrow> model (snd et) = model s
    | Inr sta \<Rightarrow> model (fst sta) = model s"
    by (rule validation_pass_model)
  have loops: "(\<forall>opt m g. state_dict (snd (opt_update T opt m g)) = state_dict m) \<longrightarrow>
      state_dict (model (session_after (part5_loop T model0 opt0 epochs trainloader testloader)))
        = state_dict model0 \<and>
      state_dict (model (session_after (part4_loop T model0 opt0 epochs trainloader)))
        = state_dict model0"
    using part5_loop_params [of T model0 opt0 epochs trainloader testloader]
      part4_loop_params [of T model0 opt0 epochs trainloader]
    by blast
  have rest: "model (zero_grad s) = model s \<and>
      model (backward T n images labels s) = model s \<and>
      optimizer (backward T n images labels s) = optimizer s \<and>
      model (optimizer_step T s) = snd (opt_update T (optimizer s) (model s) (grads s)) \<and>
      ck_state_dict (make_checkpoint m) = state_dict m"
    by (simp add: zero_grad_def backward_def optimizer_step_def make_checkpoint_def)
  show ?thesis
    using nw cl fw cr va loops rest by blast
qed

theorem parameters_change_only_in_optimizer_step_witness:
  "Network 784 10 [512, 256, 128] (\<lambda>k i. 0) = Inr first_model \<and>
   map_of (state_dict first_model) (Output Bias) = Some (new_tensor (\<lambda>k i. 0) (Output Bias) [10]) \<and>
   (\<forall>opt m g. state_dict (snd (opt_update (still_torch True) opt m g)) = state_dict m) \<and>
   state_dict (model (session_after
      (part5_loop (still_torch True) small_model () 2 one_batch one_batch))) = state_dict small_model \<and>
   state_dict (model (session_after
      (part4_loop (still_torch True) small_model () 2 one_batch))) = state_dict small_model"
proof -
  have noop: "\<forall>opt m g. state_dict (snd (opt_update (still_torch True) opt m g)) = state_dict m"
    by (simp add: still_torch_def)
  have drawn: "map_of (state_dict first_model) (Output Bias)
      = Some (new_tensor (\<lambda>k i. 0) (Output Bias) [10])"
    by (simp add: map_of_state_dict first_model_def Linear_def)
  show ?thesis
    using parameters_change_only_in_optimizer_step
      [where T = "still_torch True" and ?model0.0 = small_model and ?opt0.0 = "()" and epochs = 2
        and trainloader = one_batch and testloader = one_batch and a = 784 and b = 10
        and H = "[512, 256, 128]" and init = "\<lambda>k i. 0" and net = first_model]
      noop drawn Network_first_model
    by blast
qed

text \<open>
  Claim C8. The test accuracy an epoch of Part 5 prints is, formatted with three digits,
  the sum of the accuracies of the test batches times 100 divided by the number of test
  batches: the mean of the batch accuracies, whatever the sizes of the batches. With 10000
  test images in 156 batches of 64 and one of 16, this mean exceeds the share of correctly
  classified images, in percent, by 3 (624 c - a) / 62800, for \<open>c\<close> images right in the last
  batch and \<open>a\<close> in the others; and there is such a test set for which the printed figure is
  neither the share nor the share formatted in the same way.
\<close>

theorem test_accuracy_is_mean_of_batch_means:
  "(part5_epoch T epochs trainloader testloader s e = Inr s' \<longrightarrow>
      last (last (printed s')) =
        format_3f ((\<Sum>ol\<leftarrow>outputs_on (model s') (testloader e).
                      real (correct ol) / real (batch_size ol)) * 100
                   / real (length (testloader e)))) \<and>
   test_accuracy outs =
     (\<Sum>ol\<leftarrow>outs. real (correct ol) / real (batch_size ol)) * 100 / real (length outs) \<and>
   (map batch_size outs = replicate 156 64 @ [16] \<longrightarrow>
      test_accuracy outs - share_correct outs =
        3 * (624 * real (correct (last outs)) - real (\<Sum>ol\<leftarrow>butlast outs. correct ol)) / 62800) \<and>
   (\<exists>outs. map batch_size outs = replicate 156 64 @ [16] \<and>
      format_3f (test_accuracy outs) \<noteq> share_correct outs \<and>
      format_3f (test_accuracy outs) \<noteq> format_3f (share_correct outs))"
proof -
  have printed: "part5_epoch T epochs trainloader testloader s e = Inr s' \<longrightarrow>
      last (last (printed s')) =
        format_3f ((\<Sum>ol\<leftarrow>outputs_on (model s') (testloader e).
                      real (correct ol) / real (batch_size ol)) * 100
                   / real (length (testloader e)))"
    using part5_epoch_printed [of T epochs trainloader testloader s e s']
    by (simp add: test_accuracy_mean outputs_on_def)
  have share: "format_3f (share_correct last_batch_wrong) = 9984 / 100"
  proof -
    have "\<lfloor>9984 / 100 * (1000::real)\<rfloor> = 99840"
      by (simp add: floor_eq_iff)
    then show ?thesis
      by (simp add: last_batch_wrong_values format_3f_def Let_def)
  qed
  have exact: "share_correct last_batch_wrong = 9984 / 100"
    using last_batch_wrong_values by blast
  have "format_3f (test_accuracy last_batch_wrong) \<noteq> share_correct last_batch_wrong"
    unfolding last_batch_wrong_printed exact by simp
  moreover have "format_3f (test_accuracy last_batch_wrong)
      \<noteq> format_3f (share_correct last_batch_wrong)"
    unfolding last_batch_wrong_printed share by simp
  ultimately have differ: "\<exists>outs. map batch_size outs = replicate 156 64 @ [16] \<and>
      format_3f (test_accuracy outs) \<noteq> share_correct outs \<and>
      format_3f (test_accuracy outs) \<noteq> format_3f (share_correct outs)"
    using sizes_last_batch_wrong by blast
  show ?thesis
    using printed differ test_accuracy_mean [of outs] reported_minus_exact [of outs]
    by blast
qed

theorem test_accuracy_is_mean_of_batch_means_witness:
  "(\<exists>s'. part5_epoch (still_torch True) 1 one_batch one_batch (new_session small_model Cuda0 ()) 0
          = Inr s' \<and>
        last (last (printed s')) =
          format_3f ((\<Sum>ol\<leftarrow>outputs_on (model s') (one_batch 0).
                        real (correct ol) / real (batch_size ol)) * 100
                     / real (length (one_batch 0)))) \<and>
   map batch_size last_batch_wrong = replicate 156 64 @ [16] \<and>
   test_accuracy last_batch_wrong - share_correct last_batch_wrong = 3 * (0 - 9984) / 62800"
proof -
  obtain s' where run: "part5_epoch (still_torch True) 1 one_batch one_batch
      (new_session small_model Cuda0 ()) 0 = Inr s'"
    using part5_epoch_small_run by blast
  have c: "correct (last last_batch_wrong) = 0"
      "(\<Sum>ol\<leftarrow>butlast last_batch_wrong. correct ol) = 9984"
    by (simp_all add: last_batch_wrong_def correct_replicate sum_list_replicate)
  show ?thesis
    using test_accuracy_is_mean_of_batch_means [where outs = last_batch_wrong
        and T = "still_torch True" and epochs = 1 and trainloader = one_batch
        and testloader = one_batch and s = "new_session small_model Cuda0 ()" and e = 0
        and s' = s'] run sizes_last_batch_wrong c
    by auto
qed

text \<open>
  Claim C9. On a machine without CUDA the device chosen is the CPU, and still the training
  cell of Part 5 raises on the first batch of the first epoch, at
  \<^verbatim>\<open>images.cuda()\<close>: when the error is raised the model has been put in training mode
  and nothing else has happened, no forward pass and no optimizer step.
\<close>

theorem cuda_calls_raise_without_cuda:
  assumes no_cuda: "\<not> cuda_available T" and batches: "trainloader 0 \<noteq> []"
  shows "select_device T = Cpu \<and>
         part5_cell T init opt0 trainloader testloader =
           Inl (CudaError, model_train (new_session (Classifier init) Cpu opt0))"
proof -
  obtain b bs where b: "trainloader 0 = b # bs"
    using batches by (cases "trainloader 0") auto
  have dev: "select_device T = Cpu"
    using no_cuda by (simp add: select_device_def)
  have first: "part5_epoch T 30 trainloader testloader (new_session (Classifier init) Cpu opt0) 0
      = Inl (CudaError, model_train (new_session (Classifier init) Cpu opt0))"
    using no_cuda by (simp add: part5_epoch_def b train_batch_def)
  have "[0..<30] = 0 # [1..<30]"
    by (simp add: upt_rec)
  then have "part5_cell T init opt0 trainloader testloader =
      Inl (CudaError, model_train (new_session (Classifier init) Cpu opt0))"
    by (simp add: part5_cell_def part5_loop_def dev first)
  then show ?thesis using dev by simp
qed

theorem cuda_calls_raise_without_cuda_witness:
  "\<not> cuda_available (still_torch False) \<and> one_batch 0 \<noteq> [] \<and>
   select_device (still_torch False) = Cpu \<and>
   part5_cell (still_torch False) (\<lambda>k i. 0) () one_batch one_batch =
     Inl (CudaError, model_train (new_session (Classifier (\<lambda>k i. 0)) Cpu ()))"
proof -
  have a: "\<not> cuda_available (still_torch False)" by (simp add: still_torch_def)
  have b: "one_batch 0 \<noteq> []" by (simp add: one_batch_def)
  show ?thesis
    using cuda_calls_raise_without_cuda [where T = "still_torch False" and trainloader = one_batch
        and init = "\<lambda>k i. 0" and ?opt0.0 = "()" and testloader = one_batch] a b
    by simp
qed

end
